theory Spec2Isabelle
  imports Complex_Main "HOL-Library.Multiset" "HOL-Library.Word"
begin

section \<open>Trajectory data tools: a shallow embedding\<close>

text \<open>
  The development follows the two source files \<^verbatim>\<open>data_tools.py\<close> and
  \<^verbatim>\<open>update_parquet_meta.py\<close>. Python exceptions are values of \<open>py_error\<close>; a
  function that may raise returns \<open>py_error + 'a\<close> with \<open>Inl\<close> for the exception.
\<close>

datatype py_error =
    TypeError | KeyError | IndexError | ValueError | AttributeError
  | UnboundLocalError | FileNotFoundError | UnicodeError | JSONDecodeError

definition bind :: "py_error + 'a \<Rightarrow> ('a \<Rightarrow> py_error + 'b) \<Rightarrow> py_error + 'b" where
  "bind r f = (case r of Inl e \<Rightarrow> Inl e | Inr x \<Rightarrow> f x)"

subsection \<open>Formatting integers\<close>

text \<open>
  The f-string \<^verbatim>\<open>f"{start_lane}-{end_lane}"\<close> prints both integers in decimal,
  with a leading minus sign for a negative one.
\<close>

fun str_nat :: "nat \<Rightarrow> string" where
  "str_nat n =
     (if n < 10 then [''0123456789'' ! n]
      else str_nat (n div 10) @ [''0123456789'' ! (n mod 10)])"

declare str_nat.simps [simp del]

definition str_int :: "int \<Rightarrow> string" where
  "str_int i = (if i < 0 then CHR ''-'' # str_nat (nat (- i)) else str_nat (nat i))"

subsection \<open>Tracks and dataset metadata\<close>

text \<open>
  A dictionary entry that the code tests for presence and for \<^verbatim>\<open>None\<close> has three
  states. An element of \<^verbatim>\<open>lane_sequence\<close> is used only through \<^verbatim>\<open>int(x)\<close> inside
  \<^verbatim>\<open>try\<close>: \<open>IntLike n\<close> is a value whose conversion gives \<open>n\<close>, \<open>NotIntLike\<close> one whose
  conversion raises.
\<close>

datatype 'a field = Absent | PyNone | Val 'a

datatype lane_elem = IntLike int | NotIntLike

text \<open>
  One record for the per-vehicle dictionary, with the fields the two consumers read.
  The tracks come from \<^verbatim>\<open>read_parquet\<close>, where an integer column is an array of 64-bit
  signed integers: a frame is a 64-bit word, read as a signed number by \<open>sint\<close>, and
  \<open>+\<close> and \<open>-\<close> on frames wrap around as they do on these numbers. Floating-point
  samples are read as reals: the properties below concern which samples are emitted
  and counted, not rounding.
\<close>

type_synonym int64 = "64 word"

record track =
  lane_sequence :: "lane_elem list field"
  frame_index :: "int64 list field"
  lane_id :: "int list field"
  frenet_s :: "real list field"
  frenet_s_speed :: "real list field"
  vehicle_length :: "real field"

text \<open>The metadata dictionary, with the entries the consumers read; each may be missing.\<close>

record dataset_meta =
  unique_lane_ids :: "int list option"
  frame_interval :: "real option"
  lane_sequence_to_movement_map :: "(string \<rightharpoonup> string) option"

text \<open>\<^verbatim>\<open>track.get(key)\<close>: an absent key reads as \<^verbatim>\<open>None\<close>.\<close>

definition dict_get :: "'a field \<Rightarrow> 'a option" where
  "dict_get f = (case f of Absent \<Rightarrow> None | PyNone \<Rightarrow> None | Val x \<Rightarrow> Some x)"

text \<open>\<^verbatim>\<open>int(x)\<close>, raising for a value that does not convert.\<close>

definition py_int :: "lane_elem \<Rightarrow> py_error + int" where
  "py_int x = (case x of IntLike n \<Rightarrow> Inr n | NotIntLike \<Rightarrow> Inl ValueError)"

text \<open>
  \<^verbatim>\<open>min(xs)\<close> and \<^verbatim>\<open>max(xs)\<close> raise on an empty list; otherwise they keep the first
  element and replace it by each later one that is smaller (greater) as a signed
  number.
\<close>

definition py_min :: "int64 list \<Rightarrow> py_error + int64" where
  "py_min xs =
     (case xs of
        [] \<Rightarrow> Inl ValueError
      | y # ys \<Rightarrow> Inr (fold (\<lambda>x m. if sint x < sint m then x else m) ys y))"

definition py_max :: "int64 list \<Rightarrow> py_error + int64" where
  "py_max xs =
     (case xs of
        [] \<Rightarrow> Inl ValueError
      | y # ys \<Rightarrow> Inr (fold (\<lambda>x m. if sint m < sint x then x else m) ys y))"

subsection \<open>Pass 1 of \<^verbatim>\<open>analysis_movement_data\<close>: the global frame range\<close>

text \<open>
  The loop over \<^verbatim>\<open>trajectory_data.values()\<close> appends to \<^verbatim>\<open>all_start_frames\<close> and
  \<^verbatim>\<open>all_end_frames\<close>; the pair of lists is the loop state.
\<close>

fun collect_frames ::
  "('v \<times> track) list \<Rightarrow> int64 list \<times> int64 list \<Rightarrow> int64 list \<times> int64 list" where
  "collect_frames [] acc = acc"
| "collect_frames ((vid, t) # rest) (all_start_frames, all_end_frames) =
     (case frame_index t of
        Val (f # fs) \<Rightarrow>
          collect_frames rest (all_start_frames @ [f], all_end_frames @ [last (f # fs)])
      | _ \<Rightarrow> collect_frames rest (all_start_frames, all_end_frames))"

subsection \<open>Pass 2: the per-track classification\<close>

record 'v counters =
  movement_counts :: "string \<rightharpoonup> nat"
  od_counts :: "string \<rightharpoonup> nat"
  od_vehicles :: "string \<rightharpoonup> 'v list"
  valid_movement_vehicles :: nat
  undefined_filtered_count :: nat

definition init_counters :: "'v counters" where
  "init_counters =
     \<lparr> movement_counts = Map.empty, od_counts = Map.empty, od_vehicles = Map.empty,
       valid_movement_vehicles = 0, undefined_filtered_count = 0 \<rparr>"

text \<open>\<^verbatim>\<open>d[k] = d.get(k, 0) + 1\<close>\<close>

definition incr :: "(string \<rightharpoonup> nat) \<Rightarrow> string \<Rightarrow> (string \<rightharpoonup> nat)" where
  "incr d k = d(k \<mapsto> (case d k of None \<Rightarrow> 0 | Some c \<Rightarrow> c) + 1)"

text \<open>\<^verbatim>\<open>if k not in d: d[k] = []\<close> followed by \<^verbatim>\<open>d[k].append(vid)\<close>\<close>

definition append_vehicle :: "(string \<rightharpoonup> 'v list) \<Rightarrow> string \<Rightarrow> 'v \<Rightarrow> (string \<rightharpoonup> 'v list)" where
  "append_vehicle d k vid = d(k \<mapsto> (case d k of None \<Rightarrow> [] | Some vs \<Rightarrow> vs) @ [vid])"

text \<open>
  Lines 246 to 259: the origin-destination key of a track, or \<open>None\<close> where the loop
  body reaches \<^verbatim>\<open>continue\<close> (no lane sequence, or a conversion that raises).
\<close>

definition od_key_of :: "track \<Rightarrow> string option" where
  "od_key_of t =
     (case dict_get (lane_sequence t) of
        None \<Rightarrow> None
      | Some lane_seq \<Rightarrow>
          (if length lane_seq = 0 then None
           else (case bind (py_int (hd lane_seq)) (\<lambda>start_lane.
                        bind (py_int (last lane_seq)) (\<lambda>end_lane.
                          Inr (str_int start_lane @ ''-'' @ str_int end_lane))) of
                   Inl e \<Rightarrow> None
                 | Inr od_key \<Rightarrow> Some od_key)))"

text \<open>The counting statements at the end of the loop body (lines 282 to 292).\<close>

definition count_track :: "string \<Rightarrow> string \<Rightarrow> 'v \<Rightarrow> 'v counters \<Rightarrow> 'v counters" where
  "count_track movement_name od_key vid st =
     st \<lparr> movement_counts := incr (movement_counts st) movement_name,
          od_counts := incr (od_counts st) od_key,
          od_vehicles := append_vehicle (od_vehicles st) od_key vid,
          valid_movement_vehicles :=
            (if movement_name \<noteq> ''Undefined'' then valid_movement_vehicles st + 1
             else valid_movement_vehicles st) \<rparr>"

text \<open>
  One iteration of the loop over \<^verbatim>\<open>trajectory_data.items()\<close>. The sums
  \<^verbatim>\<open>global_min_frame+3\<close> and \<^verbatim>\<open>global_max_frame-3\<close> are 64-bit and wrap around; the
  comparisons are signed.
\<close>

definition classify_track ::
  "int64 \<Rightarrow> int64 \<Rightarrow> (string \<rightharpoonup> string) \<Rightarrow> 'v \<times> track \<Rightarrow> 'v counters \<Rightarrow> 'v counters" where
  "classify_track global_min_frame global_max_frame lmap vt st =
     (case od_key_of (snd vt) of
        None \<Rightarrow> st
      | Some od_key \<Rightarrow>
          (let movement_name =
                 (case lmap od_key of
                    Some name \<Rightarrow> name
                  | None \<Rightarrow> ''Undefined'')
           in if movement_name = ''Undefined'' then
                (case dict_get (frame_index (snd vt)) of
                   None \<Rightarrow> st
                 | Some vehicle_frames \<Rightarrow>
                     (if length vehicle_frames = 0 then st
                      else if sint (hd vehicle_frames) < sint (global_min_frame + 3)
                              \<or> sint (last vehicle_frames) > sint (global_max_frame - 3)
                      then st \<lparr> undefined_filtered_count := undefined_filtered_count st + 1 \<rparr>
                      else count_track movement_name od_key (fst vt) st))
              else count_track movement_name od_key (fst vt) st))"

fun classify_all ::
  "int64 \<Rightarrow> int64 \<Rightarrow> (string \<rightharpoonup> string) \<Rightarrow> ('v \<times> track) list \<Rightarrow> 'v counters \<Rightarrow> 'v counters" where
  "classify_all gmin gmax lmap [] st = st"
| "classify_all gmin gmax lmap (vt # rest) st =
     classify_all gmin gmax lmap rest (classify_track gmin gmax lmap vt st)"

subsection \<open>\<^verbatim>\<open>analysis_movement_data\<close>\<close>

text \<open>
  \<^verbatim>\<open>meta_data.get('lane_sequence_to_movement_map', {})\<close> is the empty dictionary when
  the entry is missing. The function returns \<^verbatim>\<open>{}\<close> early when no track has frames; otherwise it returns
  \<^verbatim>\<open>movement_counts\<close> and prints the other counters, which the model returns together.
\<close>

datatype 'v report = NoValidFrames | Analysed nat "'v counters"

definition movement_map_of :: "dataset_meta \<Rightarrow> (string \<rightharpoonup> string)" where
  "movement_map_of meta_data =
     (case lane_sequence_to_movement_map meta_data of None \<Rightarrow> Map.empty | Some d \<Rightarrow> d)"

definition analysis_movement_data ::
  "('v \<times> track) list \<Rightarrow> dataset_meta \<Rightarrow> py_error + 'v report" where
  "analysis_movement_data trajectory_data meta_data =
     (let lane_sequence_to_movement_map = movement_map_of meta_data;
          (all_start_frames, all_end_frames) = collect_frames trajectory_data ([], [])
      in if all_start_frames = [] then Inr NoValidFrames
         else bind (py_min all_start_frames) (\<lambda>global_min_frame.
              bind (py_max all_end_frames) (\<lambda>global_max_frame.
                Inr (Analysed (length trajectory_data)
                       (classify_all global_min_frame global_max_frame
                          lane_sequence_to_movement_map trajectory_data init_counters)))))"

text \<open>The value the Python function returns.\<close>

definition returned_counts :: "'v report \<Rightarrow> (string \<rightharpoonup> nat)" where
  "returned_counts r = (case r of NoValidFrames \<Rightarrow> Map.empty | Analysed n st \<Rightarrow> movement_counts st)"

subsection \<open>\<^verbatim>\<open>plot_trajectory_spacetime_diagram\<close>: segments and lane-change points\<close>

text \<open>
  The frame times are the frames, as numbers, times the frame interval.
  \<^verbatim>\<open>np.array(track[key])\<close>: a missing key raises \<^verbatim>\<open>KeyError\<close>; \<^verbatim>\<open>None\<close> becomes
  a zero-dimensional array, which has no length, cannot be indexed and does not
  take part in arithmetic.
\<close>

datatype 'a ndarray = ZeroDim | Arr "'a list"

definition np_array :: "'a list field \<Rightarrow> py_error + 'a ndarray" where
  "np_array f = (case f of Absent \<Rightarrow> Inl KeyError | PyNone \<Rightarrow> Inr ZeroDim | Val xs \<Rightarrow> Inr (Arr xs))"

definition np_len :: "'a ndarray \<Rightarrow> py_error + nat" where
  "np_len a = (case a of ZeroDim \<Rightarrow> Inl TypeError | Arr xs \<Rightarrow> Inr (length xs))"

definition np_at :: "'a ndarray \<Rightarrow> nat \<Rightarrow> py_error + 'a" where
  "np_at a i =
     (case a of
        ZeroDim \<Rightarrow> Inl IndexError
      | Arr xs \<Rightarrow> if i < length xs then Inr (xs ! i) else Inl IndexError)"

definition np_map :: "('a \<Rightarrow> 'b) \<Rightarrow> 'a ndarray \<Rightarrow> py_error + 'b ndarray" where
  "np_map f a = (case a of ZeroDim \<Rightarrow> Inl TypeError | Arr xs \<Rightarrow> Inr (Arr (map f xs)))"

record diagram =
  lines :: "((real \<times> real) \<times> (real \<times> real)) list"
  speeds :: "real list"
  lc_points_x :: "real list"
  lc_points_y :: "real list"

definition empty_diagram :: diagram where
  "empty_diagram = \<lparr> lines = [], speeds = [], lc_points_x = [], lc_points_y = [] \<rparr>"

text \<open>The body of the loop over \<^verbatim>\<open>range(len(frames) - 1)\<close> (lines 149 to 170).\<close>

definition segment_step ::
  "int ndarray \<Rightarrow> real ndarray \<Rightarrow> real ndarray \<Rightarrow> real ndarray \<Rightarrow> int \<Rightarrow> nat \<Rightarrow> diagram
     \<Rightarrow> py_error + diagram" where
  "segment_step lane_ids times_s head_s s_speeds target_lane_id i d =
     bind (np_at lane_ids i) (\<lambda>curr_lane.
     bind (np_at lane_ids (i + 1)) (\<lambda>next_lane.
       if curr_lane = target_lane_id \<and> next_lane = target_lane_id then
         bind (np_at times_s i) (\<lambda>t1. bind (np_at head_s i) (\<lambda>h1.
         bind (np_at times_s (i + 1)) (\<lambda>t2. bind (np_at head_s (i + 1)) (\<lambda>h2.
         bind (np_at s_speeds i) (\<lambda>v.
           Inr (d \<lparr> lines := lines d @ [((t1, h1), (t2, h2))],
                     speeds := speeds d @ [\<bar>v\<bar>] \<rparr>))))))
       else if curr_lane = target_lane_id \<and> next_lane \<noteq> target_lane_id then
         bind (np_at times_s i) (\<lambda>t1. bind (np_at head_s i) (\<lambda>h1.
           Inr (d \<lparr> lc_points_x := lc_points_x d @ [t1],
                     lc_points_y := lc_points_y d @ [h1] \<rparr>)))
       else if curr_lane \<noteq> target_lane_id \<and> next_lane = target_lane_id then
         bind (np_at times_s (i + 1)) (\<lambda>t2. bind (np_at head_s (i + 1)) (\<lambda>h2.
           Inr (d \<lparr> lc_points_x := lc_points_x d @ [t2],
                     lc_points_y := lc_points_y d @ [h2] \<rparr>)))
       else Inr d))"

fun segment_loop ::
  "int ndarray \<Rightarrow> real ndarray \<Rightarrow> real ndarray \<Rightarrow> real ndarray \<Rightarrow> int \<Rightarrow> nat list \<Rightarrow> diagram
     \<Rightarrow> py_error + diagram" where
  "segment_loop lane_ids times_s head_s s_speeds target [] d = Inr d"
| "segment_loop lane_ids times_s head_s s_speeds target (i # rest) d =
     bind (segment_step lane_ids times_s head_s s_speeds target i d)
          (segment_loop lane_ids times_s head_s s_speeds target rest)"

text \<open>
  The body of the loop over \<^verbatim>\<open>trajectory_data.items()\<close> (lines 124 to 170).
  \<^verbatim>\<open>range(len(frames) - 1)\<close> is empty when there are no frames, as \<open>[0..<n - 1]\<close> is
  for \<open>n = 0\<close>.
\<close>

definition track_segments :: "real \<Rightarrow> int \<Rightarrow> track \<Rightarrow> diagram \<Rightarrow> py_error + diagram" where
  "track_segments interval target_lane_id t d =
     bind (np_array (frame_index t)) (\<lambda>frames.
     bind (np_array (frenet_s t)) (\<lambda>s_coords.
     bind (np_array (frenet_s_speed t)) (\<lambda>s_speeds.
     bind (np_array (lane_id t)) (\<lambda>lane_ids.
     let length_opt = (case vehicle_length t of Absent \<Rightarrow> Some 5 | PyNone \<Rightarrow> None | Val l \<Rightarrow> Some l)
     in
     bind (np_len s_coords) (\<lambda>n_s.
     bind (if n_s > 1
           then bind (np_at s_coords (n_s - 1)) (\<lambda>s_last.
                bind (np_at s_coords 0) (\<lambda>s_first. Inr (s_last < s_first)))
           else Inr False) (\<lambda>decreasing.
     let direction_sign = (if decreasing then - 1 else 1 :: real) in
     bind (case length_opt of None \<Rightarrow> Inl TypeError | Some l \<Rightarrow> Inr (l / 2)) (\<lambda>half.
     bind (np_map (\<lambda>s. s + direction_sign * half) s_coords) (\<lambda>head_s.
     bind (np_map (\<lambda>f. of_int (sint f) * interval) frames) (\<lambda>times_s.
     bind (np_len frames) (\<lambda>n.
       segment_loop lane_ids times_s head_s s_speeds target_lane_id [0..<n - 1] d))))))))))"

text \<open>All tracks for one target lane, and all lanes of \<^verbatim>\<open>unique_lane_ids\<close>.\<close>

fun lane_diagram :: "real \<Rightarrow> int \<Rightarrow> ('v \<times> track) list \<Rightarrow> diagram \<Rightarrow> py_error + diagram" where
  "lane_diagram interval target [] d = Inr d"
| "lane_diagram interval target ((vid, t) # rest) d =
     bind (track_segments interval target t d) (lane_diagram interval target rest)"

fun lanes_loop ::
  "real \<Rightarrow> ('v \<times> track) list \<Rightarrow> int list \<Rightarrow> (int \<times> diagram) list \<Rightarrow> py_error + (int \<times> diagram) list" where
  "lanes_loop interval trajectory_data [] figs = Inr figs"
| "lanes_loop interval trajectory_data (target_lane_id # rest) figs =
     (if target_lane_id = - 1 then lanes_loop interval trajectory_data rest figs
      else bind (lane_diagram interval target_lane_id trajectory_data empty_diagram) (\<lambda>d.
             if lines d = [] then lanes_loop interval trajectory_data rest figs
             else lanes_loop interval trajectory_data rest (figs @ [(target_lane_id, d)])))"

definition plot_trajectory_spacetime_diagram ::
  "('v \<times> track) list \<Rightarrow> dataset_meta \<Rightarrow> py_error + (int \<times> diagram) list" where
  "plot_trajectory_spacetime_diagram trajectory_data meta_data =
     (let lanes = (case unique_lane_ids meta_data of None \<Rightarrow> [] | Some ls \<Rightarrow> ls)
      in case frame_interval meta_data of
           None \<Rightarrow> Inl KeyError
         | Some interval \<Rightarrow> lanes_loop interval trajectory_data lanes [])"

subsection \<open>Tables, headers and the JSON library\<close>

text \<open>
  A header maps byte strings to byte strings. The cells of a row are Python values;
  lists and arrays are \<open>PList\<close>. The library functions that the two programs call
  are parameters: \<open>'s\<close> is the type of text and \<open>'m\<close> the type of a parsed JSON
  value. The writing side is \<^verbatim>\<open>json.dumps(..., ensure_ascii=False)\<close> and
  \<^verbatim>\<open>str.encode('utf-8')\<close>. The reading side is \<^verbatim>\<open>bytes.decode('utf-8')\<close>,
  \<^verbatim>\<open>json.loads\<close>, the test \<open>has_get\<close> that holds of the values that are
  dictionaries, and \<^verbatim>\<open>table.to_pandas()\<close>: the conversion reads the header too (an
  entry \<^verbatim>\<open>pandas\<close> describes the columns) and \<open>to_pandas_raises\<close> is the exception it
  raises for a table, if any.
\<close>

type_synonym bytes = string

type_synonym header = "bytes \<rightharpoonup> bytes"

datatype pyval = PNone | PInt int | PStr string | PList "pyval list"

type_synonym row = "string \<rightharpoonup> pyval"

record table =
  schema_metadata :: "header option"
  records :: "row list"

record ('s, 'm) json_writer =
  json_dumps :: "'m \<Rightarrow> py_error + 's"
  encode_utf8 :: "'s \<Rightarrow> py_error + bytes"

record ('s, 'm) table_reader =
  decode_utf8 :: "bytes \<Rightarrow> py_error + 's"
  json_loads :: "'s \<Rightarrow> py_error + 'm"
  has_get :: "'m \<Rightarrow> bool"
  to_pandas_raises :: "table \<Rightarrow> py_error option"

definition py_len :: "pyval \<Rightarrow> py_error + nat" where
  "py_len v =
     (case v of PList xs \<Rightarrow> Inr (length xs) | PStr s \<Rightarrow> Inr (length s) | _ \<Rightarrow> Inl TypeError)"

text \<open>Only immutable values can be dictionary keys.\<close>

definition hashable :: "pyval \<Rightarrow> bool" where
  "hashable v = (case v of PList xs \<Rightarrow> False | _ \<Rightarrow> True)"

subsection \<open>\<^verbatim>\<open>read_parquet\<close>\<close>

text \<open>Lines 40 and 41: UTF-8 decoding, then JSON parsing.\<close>

definition decode_dataset_meta :: "('s, 'm) table_reader \<Rightarrow> bytes \<Rightarrow> py_error + 'm" where
  "decode_dataset_meta lib b = bind (decode_utf8 lib b) (json_loads lib)"

text \<open>
  Lines 37 to 49. The local variable \<^verbatim>\<open>restored_meta\<close> is assigned in the first
  branch only; \<open>None\<close> is the unbound variable. The \<^verbatim>\<open>in\<close> test raises when the
  table has no header at all, and \<^verbatim>\<open>restored_meta.get\<close> on a value that is not a
  dictionary.
\<close>

definition extract_meta :: "('s, 'm) table_reader \<Rightarrow> header option \<Rightarrow> py_error + 'm option" where
  "extract_meta lib file_meta_opt =
     (case file_meta_opt of
        None \<Rightarrow> Inl TypeError
      | Some file_meta \<Rightarrow>
          (case file_meta ''dataset_meta'' of
             Some b \<Rightarrow>
               bind (decode_dataset_meta lib b) (\<lambda>restored_meta.
                 if has_get lib restored_meta then Inr (Some restored_meta)
                 else Inl AttributeError)
           | None \<Rightarrow> Inr None))"

text \<open>
  Line 52: \<^verbatim>\<open>table.to_pandas()\<close>. When the conversion does not raise, the frame has
  the rows of the table.
\<close>

definition to_pandas :: "('s, 'm) table_reader \<Rightarrow> table \<Rightarrow> py_error + row list" where
  "to_pandas lib tbl =
     (case to_pandas_raises lib tbl of Some e \<Rightarrow> Inl e | None \<Rightarrow> Inr (records tbl))"

text \<open>Lines 59 to 61: \<^verbatim>\<open>df_read.iloc[0]['pixel_corners']\<close> and its \<^verbatim>\<open>len\<close>.\<close>

definition check_sample_corners :: "row list \<Rightarrow> py_error + nat" where
  "check_sample_corners rs =
     (case rs of
        [] \<Rightarrow> Inl IndexError
      | r # _ \<Rightarrow>
          (case r ''pixel_corners'' of
             None \<Rightarrow> Inl KeyError
           | Some sample_corners \<Rightarrow> py_len sample_corners))"

text \<open>Lines 65 to 74: the loop over the row records, with \<^verbatim>\<open>restored_tracks\<close> as state.\<close>

fun reconstruct :: "row list \<Rightarrow> (pyval \<rightharpoonup> row) \<Rightarrow> py_error + (pyval \<rightharpoonup> row)" where
  "reconstruct [] restored_tracks = Inr restored_tracks"
| "reconstruct (record # rest) restored_tracks =
     (case record ''vehicle_id'' of
        Some vid \<Rightarrow>
          (if hashable vid
           then reconstruct rest (restored_tracks(vid \<mapsto> record(''vehicle_id'' := None)))
           else Inl TypeError)
      | None \<Rightarrow> reconstruct rest restored_tracks)"

definition read_parquet ::
  "('s, 'm) table_reader \<Rightarrow> table \<Rightarrow> py_error + ((pyval \<rightharpoonup> row) \<times> 'm)" where
  "read_parquet lib tbl =
     bind (extract_meta lib (schema_metadata tbl)) (\<lambda>restored_meta.
     bind (to_pandas lib tbl) (\<lambda>df_read.
     bind (check_sample_corners df_read) (\<lambda>n.
     bind (reconstruct df_read Map.empty) (\<lambda>restored_tracks.
       case restored_meta of
         None \<Rightarrow> Inl UnboundLocalError
       | Some m \<Rightarrow> Inr (restored_tracks, m)))))"

subsection \<open>\<^verbatim>\<open>update_parquet_meta\<close>\<close>

text \<open>
  Dictionaries are objects: the store is the list of the header objects allocated so
  far, an address is an index into it, and a new object goes at the end. The result
  of an operation is paired with the store it leaves, also when it raises.
\<close>

type_synonym addr = nat

type_synonym store = "header list"

definition alloc :: "store \<Rightarrow> header \<Rightarrow> addr \<times> store" where
  "alloc heap d = (length heap, heap @ [d])"

text \<open>
  Lines 52 to 59. \<^verbatim>\<open>table.schema.metadata or {}\<close> is the table's own header object
  unless that is \<^verbatim>\<open>None\<close> or empty, in which case it is a new empty dictionary. The
  dictionary display makes a new object, copies the entries of \<^verbatim>\<open>existing_meta\<close> into
  it, evaluates the encoded value and stores it under the fixed key.
\<close>

definition merge_header ::
  "('s, 'm) json_writer \<Rightarrow> store \<Rightarrow> addr option \<Rightarrow> 's \<Rightarrow> (py_error + addr) \<times> store" where
  "merge_header lib heap metadata new_meta_json_str =
     (let (existing_meta, heap1) =
            (case metadata of
               None \<Rightarrow> alloc heap Map.empty
             | Some a \<Rightarrow> if heap ! a = Map.empty then alloc heap Map.empty else (a, heap));
          (updated_meta, heap2) = alloc heap1 Map.empty;
          heap3 = heap2[updated_meta := (heap2 ! updated_meta) ++ (heap2 ! existing_meta)]
      in case encode_utf8 lib new_meta_json_str of
           Inl e \<Rightarrow> (Inl e, heap3)
         | Inr b \<Rightarrow>
             (Inr updated_meta,
              heap3[updated_meta := (heap3 ! updated_meta)(''dataset_meta'' \<mapsto> b)]))"

text \<open>Lines 44 to 59: serialising the new metadata, then the merge.\<close>

definition encode_merge ::
  "('s, 'm) json_writer \<Rightarrow> store \<Rightarrow> addr option \<Rightarrow> 'm \<Rightarrow> (py_error + addr) \<times> store" where
  "encode_merge lib heap metadata new_meta_dict =
     (case json_dumps lib new_meta_dict of
        Inl e \<Rightarrow> (Inl e, heap)
      | Inr new_meta_json_str \<Rightarrow> merge_header lib heap metadata new_meta_json_str)"

text \<open>
  The whole function: \<open>parquet\<close> is the header reference of the table in the file and
  \<open>json_text\<close> the contents of the JSON file, each \<open>None\<close> when the file does not
  exist; \<^verbatim>\<open>json.load\<close> parses the file with the reading side. The result is the
  header reference of the table that is written back.
\<close>

definition update_parquet_meta ::
  "('s, 'm) table_reader \<Rightarrow> ('s, 'm) json_writer \<Rightarrow> store \<Rightarrow> addr option option \<Rightarrow> 's option
     \<Rightarrow> (py_error + addr) \<times> store" where
  "update_parquet_meta rd lib heap parquet json_text =
     (case parquet of
        None \<Rightarrow> (Inl FileNotFoundError, heap)
      | Some metadata \<Rightarrow>
          (case json_text of
             None \<Rightarrow> (Inl FileNotFoundError, heap)
           | Some text \<Rightarrow>
               (case json_loads rd text of
                  Inl e \<Rightarrow> (Inl e, heap)
                | Inr new_meta_dict \<Rightarrow> encode_merge lib heap metadata new_meta_dict)))"

subsection \<open>The writing side in Python\<close>

text \<open>
  What the two library calls of the update compute, for the values that
  \<^verbatim>\<open>json.load\<close> returns other than floating-point numbers. A Python string is a
  list of code points; it may hold a surrogate (\<open>0xD800\<close> to \<open>0xDFFF\<close>) on its own,
  as \<^verbatim>\<open>json.load\<close> returns for the escape \<^verbatim>\<open>\ud800\<close>.
\<close>

type_synonym py_str = "nat list"

datatype json =
    JNull | JBool bool | JInt int | JStr py_str | JArr "json list" | JObj "(py_str \<times> json) list"

definition ascii :: "string \<Rightarrow> py_str" where
  "ascii s = map of_char s"

text \<open>
  \<^verbatim>\<open>json.dumps\<close> with \<^verbatim>\<open>ensure_ascii=False\<close> escapes the quote, the backslash and
  the control characters below \<open>0x20\<close>, and copies every other code point.
\<close>

definition escape_char :: "nat \<Rightarrow> py_str" where
  "escape_char c =
     (if c = 0x22 then [0x5C, 0x22]
      else if c = 0x5C then [0x5C, 0x5C]
      else if c = 0x08 then [0x5C, 0x62]
      else if c = 0x0C then [0x5C, 0x66]
      else if c = 0x0A then [0x5C, 0x6E]
      else if c = 0x0D then [0x5C, 0x72]
      else if c = 0x09 then [0x5C, 0x74]
      else if c < 0x20 then
        [0x5C, 0x75, 0x30, 0x30,
         of_char (''0123456789abcdef'' ! (c div 16)), of_char (''0123456789abcdef'' ! (c mod 16))]
      else [c])"

definition dumps_str :: "py_str \<Rightarrow> py_str" where
  "dumps_str s = [0x22] @ concat (map escape_char s) @ [0x22]"

text \<open>\<^verbatim>\<open>sep.join(parts)\<close>\<close>

fun join :: "py_str \<Rightarrow> py_str list \<Rightarrow> py_str" where
  "join sep [] = []"
| "join sep [p] = p"
| "join sep (p # q # ps) = p @ sep @ join sep (q # ps)"

text \<open>The default separators are \<^verbatim>\<open>', '\<close> between items and \<^verbatim>\<open>': '\<close> after a key.\<close>

fun py_dumps :: "json \<Rightarrow> py_str" where
  "py_dumps JNull = ascii ''null''"
| "py_dumps (JBool b) = (if b then ascii ''true'' else ascii ''false'')"
| "py_dumps (JInt i) = ascii (str_int i)"
| "py_dumps (JStr s) = dumps_str s"
| "py_dumps (JArr xs) = ascii ''['' @ join (ascii '', '') (map py_dumps xs) @ ascii '']''"
| "py_dumps (JObj kvs) =
     ascii ''{'' @
     join (ascii '', '') (map (\<lambda>kv. dumps_str (fst kv) @ ascii '': '' @ py_dumps (snd kv)) kvs) @
     ascii ''}''"

text \<open>
  \<^verbatim>\<open>str.encode('utf-8')\<close>: one to four bytes for a code point, and
  \<^verbatim>\<open>UnicodeEncodeError\<close> for a surrogate. A string holds no code point from
  \<open>0x110000\<close> on.
\<close>

definition utf8_char :: "nat \<Rightarrow> py_error + bytes" where
  "utf8_char c =
     (if c < 0x80 then Inr [char_of c]
      else if c < 0x800 then Inr [char_of (0xC0 + c div 64), char_of (0x80 + c mod 64)]
      else if 0xD800 \<le> c \<and> c \<le> 0xDFFF then Inl UnicodeError
      else if c < 0x10000 then
        Inr [char_of (0xE0 + c div 4096), char_of (0x80 + c div 64 mod 64),
             char_of (0x80 + c mod 64)]
      else if c < 0x110000 then
        Inr [char_of (0xF0 + c div 262144), char_of (0x80 + c div 4096 mod 64),
             char_of (0x80 + c div 64 mod 64), char_of (0x80 + c mod 64)]
      else Inl UnicodeError)"

fun utf8_encode :: "py_str \<Rightarrow> py_error + bytes" where
  "utf8_encode [] = Inr []"
| "utf8_encode (c # cs) =
     bind (utf8_char c) (\<lambda>b. bind (utf8_encode cs) (\<lambda>bs. Inr (b @ bs)))"

definition python_writer :: "(py_str, json) json_writer" where
  "python_writer = \<lparr> json_dumps = (\<lambda>m. Inr (py_dumps m)), encode_utf8 = utf8_encode \<rparr>"

subsection \<open>Sample inputs\<close>

text \<open>A track dictionary with only the two entries the classifier reads, and a
  metadata dictionary with only the movement map.\<close>

definition classifier_track :: "lane_elem list field \<Rightarrow> int64 list field \<Rightarrow> track" where
  "classifier_track ls fi =
     \<lparr> lane_sequence = ls, frame_index = fi, lane_id = Absent, frenet_s = Absent,
       frenet_s_speed = Absent, vehicle_length = Absent \<rparr>"

definition meta_with_map :: "(string \<rightharpoonup> string) \<Rightarrow> dataset_meta" where
  "meta_with_map m =
     \<lparr> unique_lane_ids = None, frame_interval = None, lane_sequence_to_movement_map = Some m \<rparr>"

text \<open>
  A reading side in which a JSON value is kept as its own text and text as its
  bytes, so that decoding and parsing are the identity, and in which the conversion
  to a frame never raises.
\<close>

definition plain_reader :: "(string, string) table_reader" where
  "plain_reader =
     \<lparr> decode_utf8 = Inr, json_loads = Inr, has_get = (\<lambda>m. True),
       to_pandas_raises = (\<lambda>tbl. None) \<rparr>"

section \<open>The movement classifier\<close>

subsection \<open>The two passes\<close>

lemma collect_frames_app:
  "collect_frames xs (a, b) =
     (a @ map hd (filter (\<lambda>f. f \<noteq> [])
             (concat (map (\<lambda>vt. case frame_index (snd vt) of Val f \<Rightarrow> [f] | _ \<Rightarrow> []) xs))),
      b @ map last (filter (\<lambda>f. f \<noteq> [])
             (concat (map (\<lambda>vt. case frame_index (snd vt) of Val f \<Rightarrow> [f] | _ \<Rightarrow> []) xs))))"
  by (induction xs "(a, b)" arbitrary: a b rule: collect_frames.induct)
     (auto split: field.splits list.splits)

lemma set_starts:
  "set (fst (collect_frames xs ([], []))) =
     hd ` {f. f \<noteq> [] \<and> (\<exists>vt \<in> set xs. frame_index (snd vt) = Val f)}"
  apply (subst collect_frames_app)
  apply (auto split: field.splits simp: image_iff)
   apply (metis snd_conv)+
  done

lemma set_ends:
  "set (snd (collect_frames xs ([], []))) =
     last ` {f. f \<noteq> [] \<and> (\<exists>vt \<in> set xs. frame_index (snd vt) = Val f)}"
  apply (subst collect_frames_app)
  apply (auto split: field.splits simp: image_iff)
   apply (metis snd_conv)+
  done

lemma starts_Nil_iff:
  "fst (collect_frames xs ([], [])) = [] \<longleftrightarrow> snd (collect_frames xs ([], [])) = []"
  by (subst (1 2) collect_frames_app) simp

lemma starts_nonempty:
  assumes "vt \<in> set xs" "frame_index (snd vt) = Val f" "f \<noteq> []"
  shows "fst (collect_frames xs ([], [])) \<noteq> []"
proof -
  have "f \<in> {f. f \<noteq> [] \<and> (\<exists>vt \<in> set xs. frame_index (snd vt) = Val f)}"
    using assms by auto
  then have "hd f \<in> set (fst (collect_frames xs ([], [])))"
    unfolding set_starts by (rule imageI)
  then show ?thesis
    by auto
qed

lemma classify_all_fold:
  "classify_all gmin gmax lmap xs st = fold (classify_track gmin gmax lmap) xs st"
  by (induction xs arbitrary: st) auto

lemma classify_all_append:
  "classify_all gmin gmax lmap (xs @ ys) st =
     classify_all gmin gmax lmap ys (classify_all gmin gmax lmap xs st)"
  by (induction xs arbitrary: st) auto

text \<open>The least and the greatest element as signed numbers.\<close>

lemma sint_fold_min:
  "sint (fold (\<lambda>x m. if sint x < sint m then x else m) ys (y :: int64)) = Min (sint ` set (y # ys))"
proof (induction ys arbitrary: y)
  case Nil
  show ?case by simp
next
  case (Cons a ys)
  have "Min (sint ` set (y # a # ys)) = Min (sint ` set ((if sint a < sint y then a else y) # ys))"
    by (cases ys) (auto simp: min_def)
  then show ?case
    by (simp add: Cons.IH del: set_simps)
qed

lemma sint_fold_max:
  "sint (fold (\<lambda>x m. if sint m < sint x then x else m) ys (y :: int64)) = Max (sint ` set (y # ys))"
proof (induction ys arbitrary: y)
  case Nil
  show ?case by simp
next
  case (Cons a ys)
  have "Max (sint ` set (y # a # ys)) = Max (sint ` set ((if sint y < sint a then a else y) # ys))"
    by (cases ys) (auto simp: max_def)
  then show ?case
    by (simp add: Cons.IH del: set_simps)
qed

lemma word_of_sint: "w = word_of_int i" if "sint w = i" for w :: int64
  using that [symmetric] by simp

lemma py_min_Inr: "xs \<noteq> [] \<Longrightarrow> py_min xs = Inr (word_of_int (Min (sint ` set xs)))"
  by (cases xs) (simp_all add: py_min_def word_of_sint [OF sint_fold_min] del: set_simps)

lemma py_max_Inr: "xs \<noteq> [] \<Longrightarrow> py_max xs = Inr (word_of_int (Max (sint ` set xs)))"
  by (cases xs) (simp_all add: py_max_def word_of_sint [OF sint_fold_max] del: set_simps)

text \<open>The extreme frames are frames of the list.\<close>

lemma sint_word_of_Min:
  fixes A :: "int64 set"
  assumes "finite A" "A \<noteq> {}"
  shows "sint (word_of_int (Min (sint ` A)) :: int64) = Min (sint ` A)"
proof -
  have "Min (sint ` A) \<in> sint ` A"
    using assms by (intro Min_in) auto
  then obtain w where "w \<in> A" "Min (sint ` A) = sint w"
    by auto
  then show ?thesis
    by simp
qed

lemma sint_word_of_Max:
  fixes A :: "int64 set"
  assumes "finite A" "A \<noteq> {}"
  shows "sint (word_of_int (Max (sint ` A)) :: int64) = Max (sint ` A)"
proof -
  have "Max (sint ` A) \<in> sint ` A"
    using assms by (intro Max_in) auto
  then obtain w where "w \<in> A" "Max (sint ` A) = sint w"
    by auto
  then show ?thesis
    by simp
qed

text \<open>Once some track has frames, the function runs pass 2 with the extreme frames.\<close>

lemma analysis_reaches_pass2:
  assumes "fst (collect_frames xs ([], [])) \<noteq> []"
  shows "analysis_movement_data xs meta =
           Inr (Analysed (length xs)
                  (classify_all
                     (word_of_int (Min (sint ` set (fst (collect_frames xs ([], []))))))
                     (word_of_int (Max (sint ` set (snd (collect_frames xs ([], []))))))
                     (movement_map_of meta) xs init_counters))"
proof -
  have e: "snd (collect_frames xs ([], [])) \<noteq> []"
    using assms starts_Nil_iff by blast
  show ?thesis
    using assms e
    by (simp add: analysis_movement_data_def Let_def split_beta bind_def py_min_Inr py_max_Inr)
qed

lemma analysis_no_frames:
  assumes "fst (collect_frames xs ([], [])) = []"
  shows "analysis_movement_data xs meta = Inr NoValidFrames"
  using assms by (simp add: analysis_movement_data_def Let_def split_beta)

text \<open>
  Adding 3 to a frame, or taking 3 from it, wraps around only at the ends of the
  64-bit range. For a track that ends no earlier than it starts, between the global
  extremes, the boundary test on wrapped sums is the test on the numbers.
\<close>

lemma sint_add3:
  fixes w :: int64
  assumes "sint w + 3 < 9223372036854775808"
  shows "sint (w + 3) = sint w + 3"
proof -
  have "- 9223372036854775808 \<le> sint w"
    using sint_ge [of w] by simp
  then show ?thesis
    using assms by (simp add: sint_word_ariths signed_take_bit_int_eq_self)
qed

lemma sint_sub3:
  fixes w :: int64
  assumes "- 9223372036854775808 \<le> sint w - 3"
  shows "sint (w - 3) = sint w - 3"
proof -
  have "sint w < 9223372036854775808"
    using sint_lt [of w] by simp
  then show ?thesis
    using assms by (simp add: sint_word_ariths signed_take_bit_int_eq_self)
qed

lemma boundary_test_no_wrap:
  fixes gmin gmax s e :: int64
  assumes "sint gmin \<le> sint s" "sint s \<le> sint e" "sint e \<le> sint gmax"
  shows "(sint s < sint (gmin + 3) \<or> sint e > sint (gmax - 3)) \<longleftrightarrow>
         (sint s < sint gmin + 3 \<or> sint e > sint gmax - 3)"
proof -
  have lo: "- 9223372036854775808 \<le> sint gmin" and hi: "sint gmax < 9223372036854775808"
    using sint_ge [of gmin] sint_lt [of gmax] by simp_all
  consider "sint gmin + 3 < 9223372036854775808" "- 9223372036854775808 \<le> sint gmax - 3"
    | "9223372036854775808 \<le> sint gmin + 3"
    | "sint gmax - 3 < - 9223372036854775808"
    by linarith
  then show ?thesis
  proof cases
    case 1
    then show ?thesis
      by (simp add: sint_add3 sint_sub3)
  next
    case 2
    then have "sint (gmax - 3) = sint gmax - 3"
      using assms by (intro sint_sub3) linarith
    then show ?thesis
      using 2 assms hi by auto
  next
    case 3
    then have "sint (gmin + 3) = sint gmin + 3"
      using assms by (intro sint_add3) linarith
    then show ?thesis
      using 3 assms lo by auto
  qed
qed

lemma classify_unmapped:
  assumes "od_key_of t = Some k" "lmap k = None" "frame_index t = Val fs" "fs \<noteq> []"
  shows "classify_track gmin gmax lmap (vid, t) st =
           (if sint (hd fs) < sint (gmin + 3) \<or> sint (last fs) > sint (gmax - 3)
            then st \<lparr> undefined_filtered_count := undefined_filtered_count st + 1 \<rparr>
            else st \<lparr> movement_counts := (movement_counts st)
                        (''Undefined'' \<mapsto>
                           (case movement_counts st ''Undefined'' of None \<Rightarrow> 0 | Some c \<Rightarrow> c) + 1),
                      od_counts := (od_counts st)
                        (k \<mapsto> (case od_counts st k of None \<Rightarrow> 0 | Some c \<Rightarrow> c) + 1),
                      od_vehicles := (od_vehicles st)
                        (k \<mapsto> (case od_vehicles st k of None \<Rightarrow> [] | Some vs \<Rightarrow> vs) @ [vid]) \<rparr>)"
  using assms
  by (simp add: classify_track_def dict_get_def count_track_def incr_def append_vehicle_def)

lemma global_range:
  fixes xs :: "('v \<times> track) list"
  assumes "vt \<in> set xs" "frame_index (snd vt) = Val f" "f \<noteq> []"
  shows "sint (word_of_int (Min (sint ` hd ` {f. f \<noteq> [] \<and> (\<exists>vt \<in> set xs. frame_index (snd vt) = Val f)})) :: int64)
           = Min (sint ` hd ` {f. f \<noteq> [] \<and> (\<exists>vt \<in> set xs. frame_index (snd vt) = Val f)})"
    and "sint (word_of_int (Max (sint ` last ` {f. f \<noteq> [] \<and> (\<exists>vt \<in> set xs. frame_index (snd vt) = Val f)})) :: int64)
           = Max (sint ` last ` {f. f \<noteq> [] \<and> (\<exists>vt \<in> set xs. frame_index (snd vt) = Val f)})"
    and "Min (sint ` hd ` {f. f \<noteq> [] \<and> (\<exists>vt \<in> set xs. frame_index (snd vt) = Val f)}) \<le> sint (hd f)"
    and "sint (last f) \<le> Max (sint ` last ` {f. f \<noteq> [] \<and> (\<exists>vt \<in> set xs. frame_index (snd vt) = Val f)})"
proof -
  let ?valid = "{f. f \<noteq> [] \<and> (\<exists>vt \<in> set xs. frame_index (snd vt) = Val f)}"
  have m: "f \<in> ?valid"
    using assms by auto
  have fs: "finite (hd ` ?valid)" and fe: "finite (last ` ?valid)"
    unfolding set_starts [symmetric] set_ends [symmetric] by simp_all
  have ns: "hd ` ?valid \<noteq> {}" and ne: "last ` ?valid \<noteq> {}"
    using m by auto
  show "sint (word_of_int (Min (sint ` hd ` ?valid)) :: int64) = Min (sint ` hd ` ?valid)"
    by (rule sint_word_of_Min [OF fs ns])
  show "sint (word_of_int (Max (sint ` last ` ?valid)) :: int64) = Max (sint ` last ` ?valid)"
    by (rule sint_word_of_Max [OF fe ne])
  show "Min (sint ` hd ` ?valid) \<le> sint (hd f)"
    using fs m by (intro Min_le) auto
  show "sint (last f) \<le> Max (sint ` last ` ?valid)"
    using fe m by (intro Max_ge) auto
qed

lemmas classifier_eval =
  od_key_of_def dict_get_def py_int_def bind_def str_int_def str_nat.simps
  movement_map_of_def classify_track_def count_track_def incr_def append_vehicle_def
  init_counters_def classifier_track_def meta_with_map_def

subsection \<open>Tracks with an unmapped origin-destination key\<close>

text \<open>
  Claim C1. Take a track whose origin-destination key \<open>k\<close> is not in the movement map
  and whose \<^verbatim>\<open>frame_index\<close> is the non-empty list \<open>fs\<close>, anywhere in the iteration
  order (\<open>pre\<close> before it, \<open>post\<close> after it). The global frame range is the least
  first frame and the greatest last frame over the tracks with a non-empty
  \<^verbatim>\<open>frame_index\<close>. The analysis runs both passes, and the iteration for this track
  changes the counters as follows: if its first frame is below
  \<^verbatim>\<open>global_min_frame + 3\<close>, or its last frame above \<^verbatim>\<open>global_max_frame - 3\<close>, only
  \<^verbatim>\<open>undefined_filtered_count\<close> grows by one and the three dictionaries stay as they
  were; otherwise the count of the label \<^verbatim>\<open>Undefined\<close> and the count of the key
  each grow by one (from zero when there was none) and the identifier is appended
  to the vehicles of the key. The two sums are the program's, on 64-bit frames;
  whenever every track ends no earlier than it starts, as the data model has it,
  the test is the same with the sums taken on the numbers.
\<close>

theorem unmapped_track_boundary_rule:
  fixes pre post :: "('v \<times> track) list"
  assumes "od_key_of t = Some k"
      and "movement_map_of meta k = None"
      and "frame_index t = Val fs" and "fs \<noteq> []"
  shows "let items = pre @ (vid, t) # post;
             valid = {f. f \<noteq> [] \<and> (\<exists>vt \<in> set items. frame_index (snd vt) = Val f)};
             global_min_frame = (word_of_int (Min (sint ` hd ` valid)) :: int64);
             global_max_frame = (word_of_int (Max (sint ` last ` valid)) :: int64);
             lmap = movement_map_of meta;
             before = classify_all global_min_frame global_max_frame lmap pre init_counters;
             filtered = (sint (hd fs) < sint (global_min_frame + 3)
                         \<or> sint (last fs) > sint (global_max_frame - 3));
             after =
               (if filtered
                then before \<lparr> undefined_filtered_count := undefined_filtered_count before + 1 \<rparr>
                else before
                  \<lparr> movement_counts := (movement_counts before)
                      (''Undefined'' \<mapsto>
                         (case movement_counts before ''Undefined'' of None \<Rightarrow> 0 | Some c \<Rightarrow> c) + 1),
                    od_counts := (od_counts before)
                      (k \<mapsto> (case od_counts before k of None \<Rightarrow> 0 | Some c \<Rightarrow> c) + 1),
                    od_vehicles := (od_vehicles before)
                      (k \<mapsto> (case od_vehicles before k of None \<Rightarrow> [] | Some vs \<Rightarrow> vs) @ [vid]) \<rparr>)
         in analysis_movement_data items meta =
              Inr (Analysed (length items)
                     (classify_all global_min_frame global_max_frame lmap post after))
            \<and> sint global_min_frame = Min (sint ` hd ` valid)
            \<and> sint global_max_frame = Max (sint ` last ` valid)
            \<and> ((\<forall>f \<in> valid. sint (hd f) \<le> sint (last f)) \<longrightarrow>
                 (filtered \<longleftrightarrow>
                    sint (hd fs) < sint global_min_frame + 3
                    \<or> sint (last fs) > sint global_max_frame - 3))"
proof -
  let ?items = "pre @ (vid, t) # post"
  let ?valid = "{f. f \<noteq> [] \<and> (\<exists>vt \<in> set ?items. frame_index (snd vt) = Val f)}"
  let ?gmin = "word_of_int (Min (sint ` hd ` ?valid)) :: int64"
  let ?gmax = "word_of_int (Max (sint ` last ` ?valid)) :: int64"
  have i: "(vid, t) \<in> set ?items" and f: "frame_index (snd (vid, t)) = Val fs"
    using assms(3) by simp_all
  have ne: "fst (collect_frames ?items ([], [])) \<noteq> []"
    by (rule starts_nonempty [OF i f assms(4)])
  note g = global_range [OF i f assms(4)]
  have a: "analysis_movement_data ?items meta =
             Inr (Analysed (length ?items)
                    (classify_all ?gmin ?gmax (movement_map_of meta) post
                       (classify_track ?gmin ?gmax (movement_map_of meta) (vid, t)
                          (classify_all ?gmin ?gmax (movement_map_of meta) pre init_counters))))"
    unfolding analysis_reaches_pass2 [OF ne] set_starts set_ends
    by (simp add: classify_all_append)
  have w: "(sint (hd fs) < sint (?gmin + 3) \<or> sint (last fs) > sint (?gmax - 3)) \<longleftrightarrow>
           (sint (hd fs) < sint ?gmin + 3 \<or> sint (last fs) > sint ?gmax - 3)"
    if "\<forall>f \<in> ?valid. sint (hd f) \<le> sint (last f)"
  proof (rule boundary_test_no_wrap)
    show "sint ?gmin \<le> sint (hd fs)"
      unfolding g(1) by (rule g(3))
    show "sint (last fs) \<le> sint ?gmax"
      unfolding g(2) by (rule g(4))
    show "sint (hd fs) \<le> sint (last fs)"
      using that i f assms(4) by auto
  qed
  show ?thesis
    unfolding Let_def a
      classify_unmapped [where lmap = "movement_map_of meta", OF assms]
    using g(1,2) w by simp
qed

text \<open>
  The boundary cases of the specification, in one run: the global range is 0 to 100;
  vehicle 2 has frames 0 and 2 and is filtered; vehicle 3 has frames 3 and 5 and is
  counted under \<^verbatim>\<open>Undefined\<close>. In a second run the least first frame is the greatest
  64-bit number, so that \<^verbatim>\<open>global_min_frame + 3\<close> wraps around to a negative number:
  vehicle 1 starts there, ends at frame 0 and is counted, and vehicle 2 is filtered
  by its last frame.
\<close>

theorem unmapped_track_boundary_rule_witness:
  "od_key_of (classifier_track (Val [IntLike 1, IntLike 2]) (Val [0, 2])) = Some ''1-2''
   \<and> movement_map_of (meta_with_map [''3-7'' \<mapsto> ''NB_Through'']) ''1-2'' = None
   \<and> frame_index (classifier_track (Val [IntLike 1, IntLike 2]) (Val [0, 2])) = Val [0, 2]
   \<and> [0, 2 :: int64] \<noteq> []
   \<and> (\<exists>c. analysis_movement_data
            [(1 :: nat, classifier_track (Val [IntLike 3, IntLike 5, IntLike 7]) (Val [0, 50, 100])),
             (2, classifier_track (Val [IntLike 1, IntLike 2]) (Val [0, 2])),
             (3, classifier_track (Val [IntLike 1, IntLike 2]) (Val [3, 5]))]
            (meta_with_map [''3-7'' \<mapsto> ''NB_Through'']) = Inr (Analysed 3 c)
          \<and> undefined_filtered_count c = 1
          \<and> movement_counts c ''Undefined'' = Some 1
          \<and> od_counts c ''1-2'' = Some 1
          \<and> od_vehicles c ''1-2'' = Some [3])
   \<and> (\<exists>c. analysis_movement_data
            [(1 :: nat, classifier_track (Val [IntLike 1, IntLike 2]) (Val [9223372036854775807, 0])),
             (2, classifier_track (Val [IntLike 1, IntLike 2]) (Val [9223372036854775807, 100]))]
            (meta_with_map [''3-7'' \<mapsto> ''NB_Through'']) = Inr (Analysed 2 c)
          \<and> undefined_filtered_count c = 1
          \<and> od_vehicles c ''1-2'' = Some [1])"
proof -
  let ?tA = "classifier_track (Val [IntLike 3, IntLike 5, IntLike 7]) (Val [0, 50, 100])"
  let ?tB = "classifier_track (Val [IntLike 1, IntLike 2]) (Val [0, 2])"
  let ?tC = "classifier_track (Val [IntLike 1, IntLike 2]) (Val [3, 5])"
  let ?meta = "meta_with_map [''3-7'' \<mapsto> ''NB_Through'']"
  have k: "od_key_of ?tB = Some ''1-2''"
    by (simp add: classifier_eval)
  have m: "movement_map_of ?meta ''1-2'' = None"
    by (simp add: classifier_eval)
  have f: "frame_index ?tB = Val [0, 2]" and n: "[0, 2 :: int64] \<noteq> []"
    by (simp_all add: classifier_track_def)
  have v: "{f. f \<noteq> [] \<and> (\<exists>vt \<in> set ([(1 :: nat, ?tA)] @ (2, ?tB) # [(3, ?tC)]).
                               frame_index (snd vt) = Val f)}
             = {[0, 50, 100], [0, 2], [3, 5]}"
    by (auto simp: classifier_track_def)
  let ?tD = "classifier_track (Val [IntLike 1, IntLike 2]) (Val [9223372036854775807, 0])"
  let ?tE = "classifier_track (Val [IntLike 1, IntLike 2]) (Val [9223372036854775807, 100])"
  have k': "od_key_of ?tD = Some ''1-2''"
    by (simp add: classifier_eval)
  have f': "frame_index ?tD = Val [9223372036854775807, 0]"
    and n': "[9223372036854775807, 0 :: int64] \<noteq> []"
    by (simp_all add: classifier_track_def)
  have v': "{f. f \<noteq> [] \<and> (\<exists>vt \<in> set ([] @ (1 :: nat, ?tD) # [(2, ?tE)]).
                               frame_index (snd vt) = Val f)}
             = {[9223372036854775807, 0], [9223372036854775807, 100]}"
    by (auto simp: classifier_track_def)
  from unmapped_track_boundary_rule [OF k m f n, of "[(1 :: nat, ?tA)]" 2 "[(3, ?tC)]"]
  have one: "\<exists>c. analysis_movement_data [(1 :: nat, ?tA), (2, ?tB), (3, ?tC)] ?meta = Inr (Analysed 3 c)
          \<and> undefined_filtered_count c = 1
          \<and> movement_counts c ''Undefined'' = Some 1
          \<and> od_counts c ''1-2'' = Some 1
          \<and> od_vehicles c ''1-2'' = Some [3]"
    unfolding Let_def v
    by (simp add: classifier_eval)
  from unmapped_track_boundary_rule [OF k' m f' n', of "[]" "1 :: nat" "[(2, ?tE)]"]
  have two: "\<exists>c. analysis_movement_data [(1 :: nat, ?tD), (2, ?tE)] ?meta = Inr (Analysed 2 c)
          \<and> undefined_filtered_count c = 1
          \<and> od_vehicles c ''1-2'' = Some [1]"
    unfolding Let_def v'
    by (simp add: classifier_eval)
  show ?thesis
    using k m f n one two by blast
qed

subsection \<open>Independence of the iteration order\<close>

text \<open>Every iteration is one of three updates, chosen by the track alone.\<close>

lemma incr_commute: "incr (incr m a) b = incr (incr m b) a"
  by (auto simp: incr_def fun_upd_twist)

lemma classify_track_cases:
  "(\<forall>st. classify_track gmin gmax lmap x st = st)
   \<or> (\<forall>st. classify_track gmin gmax lmap x st =
              st \<lparr> undefined_filtered_count := undefined_filtered_count st + 1 \<rparr>)
   \<or> (\<exists>name k. \<forall>st. classify_track gmin gmax lmap x st = count_track name k (fst x) st)"
  unfolding classify_track_def Let_def
  by (cases "od_key_of (snd x)"; cases "dict_get (frame_index (snd x))") auto

text \<open>
  Only \<^verbatim>\<open>od_vehicles\<close> records the order of the iterations. With that dictionary
  erased, two iterations commute.
\<close>

lemma erase_classify:
  "(classify_track gmin gmax lmap x st) \<lparr> od_vehicles := Map.empty \<rparr> =
   (classify_track gmin gmax lmap x (st \<lparr> od_vehicles := Map.empty \<rparr>)) \<lparr> od_vehicles := Map.empty \<rparr>"
  using classify_track_cases [of gmin gmax lmap x]
  by (auto simp: count_track_def)

lemma erase_classify_commute:
  "(classify_track gmin gmax lmap x (classify_track gmin gmax lmap y st)) \<lparr> od_vehicles := Map.empty \<rparr> =
   (classify_track gmin gmax lmap y (classify_track gmin gmax lmap x st)) \<lparr> od_vehicles := Map.empty \<rparr>"
  using classify_track_cases [of gmin gmax lmap x] classify_track_cases [of gmin gmax lmap y]
  by (auto simp: count_track_def incr_commute)

lemma erase_fold:
  "(fold (classify_track gmin gmax lmap) xs st) \<lparr> od_vehicles := Map.empty \<rparr> =
   fold (\<lambda>x s. (classify_track gmin gmax lmap x s) \<lparr> od_vehicles := Map.empty \<rparr>) xs
        (st \<lparr> od_vehicles := Map.empty \<rparr>)"
proof (induction xs arbitrary: st)
  case Nil
  show ?case by simp
next
  case (Cons x xs)
  show ?case
    by (simp add: Cons.IH erase_classify [of gmin gmax lmap x st])
qed

lemma classify_all_permuted:
  assumes "mset xs = mset ys"
  shows "(classify_all gmin gmax lmap xs st) \<lparr> od_vehicles := Map.empty \<rparr> =
         (classify_all gmin gmax lmap ys st) \<lparr> od_vehicles := Map.empty \<rparr>"
proof -
  let ?f = "\<lambda>x s. (classify_track gmin gmax lmap x s) \<lparr> od_vehicles := Map.empty \<rparr>"
  have "?f x \<circ> ?f y = ?f y \<circ> ?f x" for x y
  proof
    fix s
    have "?f x (?f y s) = (classify_track gmin gmax lmap x (classify_track gmin gmax lmap y s)) \<lparr> od_vehicles := Map.empty \<rparr>"
      by (rule erase_classify [symmetric])
    also have "\<dots> = (classify_track gmin gmax lmap y (classify_track gmin gmax lmap x s)) \<lparr> od_vehicles := Map.empty \<rparr>"
      by (rule erase_classify_commute)
    also have "\<dots> = ?f y (?f x s)"
      by (rule erase_classify)
    finally show "(?f x \<circ> ?f y) s = (?f y \<circ> ?f x) s"
      by simp
  qed
  then have "fold ?f xs = fold ?f ys"
    using assms by (intro fold_multiset_equiv) auto
  then show ?thesis
    by (simp add: classify_all_fold erase_fold)
qed

text \<open>
  Claim C7. For two iteration orders \<open>xs\<close> and \<open>ys\<close> of the same track mapping (the
  same entries, in any order) and the same metadata, the analysis either returns
  early for both, or runs pass 2 for both with equal \<^verbatim>\<open>movement_counts\<close>, equal
  \<^verbatim>\<open>od_counts\<close> and equal \<^verbatim>\<open>undefined_filtered_count\<close> (and equal totals of
  vehicles and of identified movements).
\<close>

theorem classifier_order_independent:
  fixes xs ys :: "('v \<times> track) list"
  assumes "mset xs = mset ys"
  shows "(analysis_movement_data xs meta = Inr NoValidFrames
          \<and> analysis_movement_data ys meta = Inr NoValidFrames)
       \<or> (\<exists>n c d. analysis_movement_data xs meta = Inr (Analysed n c)
                  \<and> analysis_movement_data ys meta = Inr (Analysed n d)
                  \<and> movement_counts c = movement_counts d
                  \<and> od_counts c = od_counts d
                  \<and> undefined_filtered_count c = undefined_filtered_count d
                  \<and> valid_movement_vehicles c = valid_movement_vehicles d)"
proof -
  have s: "set xs = set ys"
    using assms by (rule mset_eq_setD)
  have l: "length xs = length ys"
    using assms by (rule mset_eq_length)
  have a: "set (fst (collect_frames xs ([], []))) = set (fst (collect_frames ys ([], [])))"
    unfolding set_starts s ..
  have b: "set (snd (collect_frames xs ([], []))) = set (snd (collect_frames ys ([], [])))"
    unfolding set_ends s ..
  show ?thesis
  proof (cases "fst (collect_frames xs ([], [])) = []")
    case True
    then have "fst (collect_frames ys ([], [])) = []"
      using a by simp
    with True show ?thesis
      by (simp add: analysis_no_frames)
  next
    case False
    then have ny: "fst (collect_frames ys ([], [])) \<noteq> []"
      using a by auto
    let ?gmin = "word_of_int (Min (sint ` set (fst (collect_frames xs ([], []))))) :: int64"
    let ?gmax = "word_of_int (Max (sint ` set (snd (collect_frames xs ([], []))))) :: int64"
    let ?c = "classify_all ?gmin ?gmax (movement_map_of meta) xs (init_counters :: 'v counters)"
    let ?d = "classify_all ?gmin ?gmax (movement_map_of meta) ys (init_counters :: 'v counters)"
    have e: "?c \<lparr> od_vehicles := Map.empty \<rparr> = ?d \<lparr> od_vehicles := Map.empty \<rparr>"
      using assms by (rule classify_all_permuted)
    have "movement_counts ?c = movement_counts (?c \<lparr> od_vehicles := Map.empty \<rparr>)"
         "od_counts ?c = od_counts (?c \<lparr> od_vehicles := Map.empty \<rparr>)"
         "undefined_filtered_count ?c = undefined_filtered_count (?c \<lparr> od_vehicles := Map.empty \<rparr>)"
         "valid_movement_vehicles ?c = valid_movement_vehicles (?c \<lparr> od_vehicles := Map.empty \<rparr>)"
      by simp_all
    then have "movement_counts ?c = movement_counts ?d" "od_counts ?c = od_counts ?d"
         "undefined_filtered_count ?c = undefined_filtered_count ?d"
         "valid_movement_vehicles ?c = valid_movement_vehicles ?d"
      unfolding e by simp_all
    moreover have "analysis_movement_data xs meta = Inr (Analysed (length xs) ?c)"
      by (rule analysis_reaches_pass2 [OF False])
    moreover have "analysis_movement_data ys meta = Inr (Analysed (length xs) ?d)"
      unfolding analysis_reaches_pass2 [OF ny] a b l ..
    ultimately show ?thesis
      by blast
  qed
qed

text \<open>Two vehicles, in both orders.\<close>

theorem classifier_order_independent_witness:
  "mset [(1 :: nat, classifier_track (Val [IntLike 3, IntLike 7]) (Val [0, 50, 100])),
         (2, classifier_track (Val [IntLike 1, IntLike 2]) (Val [3, 5]))]
   = mset [(2, classifier_track (Val [IntLike 1, IntLike 2]) (Val [3, 5])),
           (1, classifier_track (Val [IntLike 3, IntLike 7]) (Val [0, 50, 100]))]
   \<and> (\<exists>c d.
         analysis_movement_data
           [(1 :: nat, classifier_track (Val [IntLike 3, IntLike 7]) (Val [0, 50, 100])),
            (2, classifier_track (Val [IntLike 1, IntLike 2]) (Val [3, 5]))]
           (meta_with_map [''3-7'' \<mapsto> ''NB_Through'']) = Inr (Analysed 2 c)
       \<and> analysis_movement_data
           [(2, classifier_track (Val [IntLike 1, IntLike 2]) (Val [3, 5])),
            (1 :: nat, classifier_track (Val [IntLike 3, IntLike 7]) (Val [0, 50, 100]))]
           (meta_with_map [''3-7'' \<mapsto> ''NB_Through'']) = Inr (Analysed 2 d)
       \<and> movement_counts c = movement_counts d
       \<and> od_counts c = od_counts d
       \<and> undefined_filtered_count c = undefined_filtered_count d
       \<and> movement_counts c ''NB_Through'' = Some 1
       \<and> movement_counts c ''Undefined'' = Some 1)"
proof -
  let ?xs = "[(1 :: nat, classifier_track (Val [IntLike 3, IntLike 7]) (Val [0, 50, 100])),
              (2, classifier_track (Val [IntLike 1, IntLike 2]) (Val [3, 5]))]"
  let ?ys = "[(2 :: nat, classifier_track (Val [IntLike 1, IntLike 2]) (Val [3, 5])),
              (1, classifier_track (Val [IntLike 3, IntLike 7]) (Val [0, 50, 100]))]"
  let ?meta = "meta_with_map [''3-7'' \<mapsto> ''NB_Through'']"
  have p: "mset ?xs = mset ?ys"
    by simp
  have x: "analysis_movement_data ?xs ?meta =
             Inr (Analysed 2 (classify_all 0 100 (movement_map_of ?meta) ?xs init_counters))"
    by (simp add: analysis_movement_data_def py_min_def py_max_def bind_def classifier_track_def Let_def)
  from classifier_order_independent [OF p, of ?meta] p x
  show ?thesis
    by (auto simp: classifier_eval)
qed

subsection \<open>Tracks with a mapped origin-destination key\<close>

lemma classify_mapped:
  assumes "od_key_of t = Some k" "lmap k = Some name" "name \<noteq> ''Undefined''"
  shows "classify_track gmin gmax lmap (vid, t) st =
           st \<lparr> movement_counts := (movement_counts st)
                  (name \<mapsto> (case movement_counts st name of None \<Rightarrow> 0 | Some c \<Rightarrow> c) + 1),
                od_counts := (od_counts st)
                  (k \<mapsto> (case od_counts st k of None \<Rightarrow> 0 | Some c \<Rightarrow> c) + 1),
                od_vehicles := (od_vehicles st)
                  (k \<mapsto> (case od_vehicles st k of None \<Rightarrow> [] | Some vs \<Rightarrow> vs) @ [vid]),
                valid_movement_vehicles := valid_movement_vehicles st + 1 \<rparr>"
  using assms
  by (simp add: classify_track_def count_track_def incr_def append_vehicle_def)

lemma classify_mapped_undefined:
  assumes "od_key_of t = Some k" "lmap k = Some ''Undefined''"
  shows "classify_track gmin gmax lmap (vid, t) st =
           (case frame_index t of
              Val (f # fs) \<Rightarrow>
                if sint f < sint (gmin + 3) \<or> sint (last (f # fs)) > sint (gmax - 3)
                then st \<lparr> undefined_filtered_count := undefined_filtered_count st + 1 \<rparr>
                else st \<lparr> movement_counts := (movement_counts st)
                            (''Undefined'' \<mapsto>
                               (case movement_counts st ''Undefined'' of None \<Rightarrow> 0 | Some c \<Rightarrow> c) + 1),
                          od_counts := (od_counts st)
                            (k \<mapsto> (case od_counts st k of None \<Rightarrow> 0 | Some c \<Rightarrow> c) + 1),
                          od_vehicles := (od_vehicles st)
                            (k \<mapsto> (case od_vehicles st k of None \<Rightarrow> [] | Some vs \<Rightarrow> vs) @ [vid]) \<rparr>
            | _ \<Rightarrow> st)"
  using assms
  by (simp add: classify_track_def count_track_def incr_def append_vehicle_def dict_get_def
           split: field.splits list.splits)

text \<open>
  Claim C2, as amended. Take a track whose origin-destination key \<open>k\<close> is mapped to
  the label \<open>name\<close>, in a track mapping in which some track has a non-empty
  \<^verbatim>\<open>frame_index\<close> (so that the analysis does not return early). If the label is not
  \<^verbatim>\<open>Undefined\<close>, then whatever the track's own \<^verbatim>\<open>frame_index\<close> is, the iteration for
  it counts it: the count of the label and the count of the key each grow by one
  (from zero when there was none), the identifier is appended to the vehicles of
  the key, the number of identified movements grows by one, and
  \<^verbatim>\<open>undefined_filtered_count\<close> stays as it was. If the label is the string
  \<^verbatim>\<open>Undefined\<close>, the track is handled as one with an unmapped key: it is skipped when
  it has no frames, and otherwise boundary-filtered or counted under
  \<^verbatim>\<open>Undefined\<close> by the test on its first and last frame.
\<close>

theorem mapped_track_counted:
  fixes pre post :: "('v \<times> track) list"
  assumes "od_key_of t = Some k"
      and "movement_map_of meta k = Some name"
      and "\<exists>vt \<in> set (pre @ (vid, t) # post). \<exists>f. f \<noteq> [] \<and> frame_index (snd vt) = Val f"
  shows "let items = pre @ (vid, t) # post;
             valid = {f. f \<noteq> [] \<and> (\<exists>vt \<in> set items. frame_index (snd vt) = Val f)};
             global_min_frame = (word_of_int (Min (sint ` hd ` valid)) :: int64);
             global_max_frame = (word_of_int (Max (sint ` last ` valid)) :: int64);
             lmap = movement_map_of meta;
             before = classify_all global_min_frame global_max_frame lmap pre init_counters;
             counted = before
               \<lparr> movement_counts := (movement_counts before)
                   (name \<mapsto> (case movement_counts before name of None \<Rightarrow> 0 | Some c \<Rightarrow> c) + 1),
                 od_counts := (od_counts before)
                   (k \<mapsto> (case od_counts before k of None \<Rightarrow> 0 | Some c \<Rightarrow> c) + 1),
                 od_vehicles := (od_vehicles before)
                   (k \<mapsto> (case od_vehicles before k of None \<Rightarrow> [] | Some vs \<Rightarrow> vs) @ [vid]),
                 valid_movement_vehicles :=
                   valid_movement_vehicles before + (if name = ''Undefined'' then 0 else 1) \<rparr>;
             after =
               (if name \<noteq> ''Undefined'' then counted
                else (case frame_index t of
                        Val (f # fs) \<Rightarrow>
                          if sint f < sint (global_min_frame + 3)
                             \<or> sint (last (f # fs)) > sint (global_max_frame - 3)
                          then before \<lparr> undefined_filtered_count :=
                                          undefined_filtered_count before + 1 \<rparr>
                          else counted
                      | _ \<Rightarrow> before))
         in analysis_movement_data items meta =
              Inr (Analysed (length items)
                     (classify_all global_min_frame global_max_frame lmap post after))"
proof -
  let ?items = "pre @ (vid, t) # post"
  from assms(3) obtain vt f where "vt \<in> set ?items" "frame_index (snd vt) = Val f" "f \<noteq> []"
    by blast
  then have ne: "fst (collect_frames ?items ([], [])) \<noteq> []"
    by (rule starts_nonempty)
  show ?thesis
  proof (cases "name = ''Undefined''")
    case False
    show ?thesis
      unfolding Let_def analysis_reaches_pass2 [OF ne] set_starts set_ends
      using False
      by (simp add: classify_all_append
            classify_mapped [where lmap = "movement_map_of meta", OF assms(1,2) False])
  next
    case True
    have m: "movement_map_of meta k = Some ''Undefined''"
      using assms(2) True by simp
    show ?thesis
      unfolding Let_def analysis_reaches_pass2 [OF ne] set_starts set_ends
      using True
      by (simp add: classify_all_append
            classify_mapped_undefined [where lmap = "movement_map_of meta", OF assms(1) m]
          split: field.splits list.splits)
  qed
qed

text \<open>
  The example of the specification: lane sequence 3, 5, 7 and the map from
  \<^verbatim>\<open>3-7\<close> to \<^verbatim>\<open>NB_Through\<close>, for a track that spans the whole frame range. In a
  second run the key \<^verbatim>\<open>1-2\<close> is mapped to \<^verbatim>\<open>Undefined\<close>: vehicle 2, away from the
  boundary, is counted under that label and is not an identified movement.
\<close>

theorem mapped_track_counted_witness:
  "od_key_of (classifier_track (Val [IntLike 3, IntLike 5, IntLike 7]) (Val [0, 10])) = Some ''3-7''
   \<and> movement_map_of (meta_with_map [''3-7'' \<mapsto> ''NB_Through'']) ''3-7'' = Some ''NB_Through''
   \<and> (\<exists>vt \<in> set ([] @ (1 :: nat, classifier_track (Val [IntLike 3, IntLike 5, IntLike 7]) (Val [0, 10])) # []).
         \<exists>f. f \<noteq> [] \<and> frame_index (snd vt) = Val f)
   \<and> (\<exists>c. analysis_movement_data
            [(1 :: nat, classifier_track (Val [IntLike 3, IntLike 5, IntLike 7]) (Val [0, 10]))]
            (meta_with_map [''3-7'' \<mapsto> ''NB_Through'']) = Inr (Analysed 1 c)
          \<and> movement_counts c ''NB_Through'' = Some 1
          \<and> od_counts c ''3-7'' = Some 1
          \<and> od_vehicles c ''3-7'' = Some [1]
          \<and> valid_movement_vehicles c = 1
          \<and> undefined_filtered_count c = 0)
   \<and> (\<exists>c. analysis_movement_data
            [(1 :: nat, classifier_track (Val [IntLike 3, IntLike 7]) (Val [0, 50, 100])),
             (2, classifier_track (Val [IntLike 1, IntLike 2]) (Val [3, 5]))]
            (meta_with_map [''3-7'' \<mapsto> ''NB_Through'', ''1-2'' \<mapsto> ''Undefined'']) = Inr (Analysed 2 c)
          \<and> movement_counts c ''Undefined'' = Some 1
          \<and> od_vehicles c ''1-2'' = Some [2]
          \<and> valid_movement_vehicles c = 1
          \<and> undefined_filtered_count c = 0)"
proof -
  let ?t = "classifier_track (Val [IntLike 3, IntLike 5, IntLike 7]) (Val [0, 10])"
  let ?meta = "meta_with_map [''3-7'' \<mapsto> ''NB_Through'']"
  have k: "od_key_of ?t = Some ''3-7''"
    by (simp add: classifier_eval)
  have m: "movement_map_of ?meta ''3-7'' = Some ''NB_Through''"
    by (simp add: classifier_eval)
  have e: "\<exists>vt \<in> set ([] @ (1 :: nat, ?t) # []). \<exists>f. f \<noteq> [] \<and> frame_index (snd vt) = Val f"
    by (simp add: classifier_track_def)
  have v: "{f. f \<noteq> [] \<and> (\<exists>vt \<in> set ([] @ (1 :: nat, ?t) # []). frame_index (snd vt) = Val f)}
             = {[0, 10]}"
    by (auto simp: classifier_track_def)
  from mapped_track_counted [OF k m e]
  have one: "\<exists>c. analysis_movement_data [(1 :: nat, ?t)] ?meta = Inr (Analysed 1 c)
          \<and> movement_counts c ''NB_Through'' = Some 1
          \<and> od_counts c ''3-7'' = Some 1
          \<and> od_vehicles c ''3-7'' = Some [1]
          \<and> valid_movement_vehicles c = 1
          \<and> undefined_filtered_count c = 0"
    unfolding Let_def v
    by (simp add: classifier_eval)
  let ?a = "classifier_track (Val [IntLike 3, IntLike 7]) (Val [0, 50, 100])"
  let ?b = "classifier_track (Val [IntLike 1, IntLike 2]) (Val [3, 5])"
  let ?meta' = "meta_with_map [''3-7'' \<mapsto> ''NB_Through'', ''1-2'' \<mapsto> ''Undefined'']"
  have k': "od_key_of ?b = Some ''1-2''"
    by (simp add: classifier_eval)
  have m': "movement_map_of ?meta' ''1-2'' = Some ''Undefined''"
    by (simp add: classifier_eval)
  have e': "\<exists>vt \<in> set ([(1 :: nat, ?a)] @ (2, ?b) # []). \<exists>f. f \<noteq> [] \<and> frame_index (snd vt) = Val f"
    by (simp add: classifier_track_def)
  have v': "{f. f \<noteq> [] \<and> (\<exists>vt \<in> set ([(1 :: nat, ?a)] @ (2, ?b) # []). frame_index (snd vt) = Val f)}
             = {[0, 50, 100], [3, 5]}"
    by (auto simp: classifier_track_def)
  from mapped_track_counted [OF k' m' e']
  have two: "\<exists>c. analysis_movement_data [(1 :: nat, ?a), (2, ?b)] ?meta' = Inr (Analysed 2 c)
          \<and> movement_counts c ''Undefined'' = Some 1
          \<and> od_vehicles c ''1-2'' = Some [2]
          \<and> valid_movement_vehicles c = 1
          \<and> undefined_filtered_count c = 0"
    unfolding Let_def v'
    by (simp add: classifier_eval)
  show ?thesis
    using k m e one two by blast
qed

text \<open>
  Claim C2 as stated fails twice. A key mapped to the label \<^verbatim>\<open>Undefined\<close> is
  treated as an unmapped one: the only track of the run touches the frame boundary
  and is filtered. And a mapped track is not counted when no track has frames: the
  analysis returns before pass 2.
\<close>

theorem mapped_track_counted_counterexample:
  "analysis_movement_data
     [(1 :: nat, classifier_track (Val [IntLike 3, IntLike 5, IntLike 7]) (Val [0, 10]))]
     (meta_with_map [''3-7'' \<mapsto> ''Undefined''])
   = Inr (Analysed 1 (init_counters \<lparr> undefined_filtered_count := 1 \<rparr>))
   \<and> analysis_movement_data
     [(1 :: nat, classifier_track (Val [IntLike 3, IntLike 5, IntLike 7]) (Val []))]
     (meta_with_map [''3-7'' \<mapsto> ''NB_Through''])
   = Inr NoValidFrames"
  by (simp add: analysis_movement_data_def py_min_def py_max_def Let_def classifier_eval)

subsection \<open>Mapped tracks without frames\<close>

lemma od_key_of_frame_index_update: "od_key_of (t \<lparr> frame_index := fi \<rparr>) = od_key_of t"
  by (simp add: od_key_of_def)

text \<open>
  Claim C10, as amended. Take a track whose origin-destination key is mapped to a
  label other than \<^verbatim>\<open>Undefined\<close> and whose \<^verbatim>\<open>frame_index\<close> is absent, \<^verbatim>\<open>None\<close> or
  empty, in a track mapping in which some other track has a non-empty
  \<^verbatim>\<open>frame_index\<close>. The global frame range comes from the other tracks, and the
  iteration for this track counts it: the count of the label and the count of the
  key each grow by one (from zero when there was none), the identifier is appended
  to the vehicles of the key and the number of identified movements grows by one.
  In pass 2 the iteration does not depend on the track's \<^verbatim>\<open>frame_index\<close> at all.
\<close>

theorem mapped_track_without_frames_counted:
  fixes pre post :: "('v \<times> track) list"
  assumes "od_key_of t = Some k"
      and "movement_map_of meta k = Some name" and "name \<noteq> ''Undefined''"
      and "frame_index t = Absent \<or> frame_index t = PyNone \<or> frame_index t = Val []"
      and "\<exists>vt \<in> set (pre @ post). \<exists>f. f \<noteq> [] \<and> frame_index (snd vt) = Val f"
  shows "let items = pre @ (vid, t) # post;
             valid = {f. f \<noteq> [] \<and> (\<exists>vt \<in> set (pre @ post). frame_index (snd vt) = Val f)};
             global_min_frame = (word_of_int (Min (sint ` hd ` valid)) :: int64);
             global_max_frame = (word_of_int (Max (sint ` last ` valid)) :: int64);
             lmap = movement_map_of meta;
             before = classify_all global_min_frame global_max_frame lmap pre init_counters;
             after = before
               \<lparr> movement_counts := (movement_counts before)
                   (name \<mapsto> (case movement_counts before name of None \<Rightarrow> 0 | Some c \<Rightarrow> c) + 1),
                 od_counts := (od_counts before)
                   (k \<mapsto> (case od_counts before k of None \<Rightarrow> 0 | Some c \<Rightarrow> c) + 1),
                 od_vehicles := (od_vehicles before)
                   (k \<mapsto> (case od_vehicles before k of None \<Rightarrow> [] | Some vs \<Rightarrow> vs) @ [vid]),
                 valid_movement_vehicles := valid_movement_vehicles before + 1 \<rparr>
         in analysis_movement_data items meta =
              Inr (Analysed (length items)
                     (classify_all global_min_frame global_max_frame lmap post after))
            \<and> (\<forall>fi gmin gmax st.
                  classify_track gmin gmax lmap (vid, t \<lparr> frame_index := fi \<rparr>) st =
                  classify_track gmin gmax lmap (vid, t) st)"
proof -
  let ?items = "pre @ (vid, t) # post"
  have v: "{f. f \<noteq> [] \<and> (\<exists>vt \<in> set ?items. frame_index (snd vt) = Val f)} =
           {f. f \<noteq> [] \<and> (\<exists>vt \<in> set (pre @ post). frame_index (snd vt) = Val f)}"
    using assms(4) by auto
  from assms(5) obtain vt f where "vt \<in> set ?items" "frame_index (snd vt) = Val f" "f \<noteq> []"
    by auto
  then have ne: "fst (collect_frames ?items ([], [])) \<noteq> []"
    by (rule starts_nonempty)
  have c: "classify_track gmin gmax (movement_map_of meta) (vid, t \<lparr> frame_index := fi \<rparr>) st =
           classify_track gmin gmax (movement_map_of meta) (vid, t) st" for fi gmin gmax st
    using assms(1,2,3)
    by (simp add: classify_mapped [where t = "t \<lparr> frame_index := fi \<rparr>"] classify_mapped
          od_key_of_frame_index_update)
  show ?thesis
    unfolding Let_def analysis_reaches_pass2 [OF ne] set_starts set_ends v
    using c
    by (simp add: classify_all_append
          classify_mapped [where lmap = "movement_map_of meta", OF assms(1,2,3)])
qed

text \<open>A mapped vehicle without \<^verbatim>\<open>frame_index\<close>, next to an unmapped one with frames.\<close>

theorem mapped_track_without_frames_counted_witness:
  "od_key_of (classifier_track (Val [IntLike 3, IntLike 7]) Absent) = Some ''3-7''
   \<and> movement_map_of (meta_with_map [''3-7'' \<mapsto> ''NB_Through'']) ''3-7'' = Some ''NB_Through''
   \<and> ''NB_Through'' \<noteq> ''Undefined''
   \<and> frame_index (classifier_track (Val [IntLike 3, IntLike 7]) Absent) = Absent
   \<and> (\<exists>vt \<in> set ([] @ [(2 :: nat, classifier_track (Val [IntLike 1, IntLike 2]) (Val [0, 10]))]).
         \<exists>f. f \<noteq> [] \<and> frame_index (snd vt) = Val f)
   \<and> (\<exists>c. analysis_movement_data
            [(1 :: nat, classifier_track (Val [IntLike 3, IntLike 7]) Absent),
             (2, classifier_track (Val [IntLike 1, IntLike 2]) (Val [0, 10]))]
            (meta_with_map [''3-7'' \<mapsto> ''NB_Through'']) = Inr (Analysed 2 c)
          \<and> movement_counts c ''NB_Through'' = Some 1
          \<and> od_counts c ''3-7'' = Some 1
          \<and> od_vehicles c ''3-7'' = Some [1]
          \<and> valid_movement_vehicles c = 1
          \<and> undefined_filtered_count c = 1)"
proof -
  let ?t = "classifier_track (Val [IntLike 3, IntLike 7]) Absent"
  let ?o = "classifier_track (Val [IntLike 1, IntLike 2]) (Val [0, 10])"
  let ?meta = "meta_with_map [''3-7'' \<mapsto> ''NB_Through'']"
  have k: "od_key_of ?t = Some ''3-7''"
    by (simp add: classifier_eval)
  have m: "movement_map_of ?meta ''3-7'' = Some ''NB_Through''"
    by (simp add: classifier_eval)
  have u: "''NB_Through'' \<noteq> ''Undefined''"
    by simp
  have a: "frame_index ?t = Absent \<or> frame_index ?t = PyNone \<or> frame_index ?t = Val []"
    by (simp add: classifier_track_def)
  have e: "\<exists>vt \<in> set ([] @ [(2 :: nat, ?o)]). \<exists>f. f \<noteq> [] \<and> frame_index (snd vt) = Val f"
    by (simp add: classifier_track_def)
  have v: "{f. f \<noteq> [] \<and> (\<exists>vt \<in> set ([] @ [(2 :: nat, ?o)]). frame_index (snd vt) = Val f)} = {[0, 10]}"
    by (auto simp: classifier_track_def)
  from mapped_track_without_frames_counted [OF k m u a e, of 1] k m e
  show ?thesis
    unfolding Let_def v
    by (simp add: classifier_eval)
qed

text \<open>
  Claim C10 as stated fails when the mapped track without frames is alone: pass 1
  reads \<^verbatim>\<open>frame_index\<close> of every track, finds no frames and the analysis returns
  \<^verbatim>\<open>{}\<close> without counting the track.
\<close>

theorem mapped_track_without_frames_counterexample:
  "analysis_movement_data
     [(1 :: nat, classifier_track (Val [IntLike 3, IntLike 7]) Absent)]
     (meta_with_map [''3-7'' \<mapsto> ''NB_Through''])
   = Inr NoValidFrames
   \<and> analysis_movement_data
     [(1 :: nat, classifier_track (Val [IntLike 3, IntLike 7]) PyNone)]
     (meta_with_map [''3-7'' \<mapsto> ''NB_Through''])
   = Inr NoValidFrames"
  by (simp add: analysis_movement_data_def Let_def classifier_track_def)

section \<open>The spacetime segment builder\<close>

text \<open>One step and the whole loop, when every index read is in range.\<close>

lemma segment_step_in_range:
  assumes "Suc i < length L" "length T = length L" "length H = length L" "length V = length L"
  shows "segment_step (Arr L) (Arr T) (Arr H) (Arr V) target i d =
           Inr (d \<lparr> lines := lines d @
                       (if L ! i = target \<and> L ! Suc i = target
                        then [((T ! i, H ! i), (T ! Suc i, H ! Suc i))] else []),
                     speeds := speeds d @
                       (if L ! i = target \<and> L ! Suc i = target then [\<bar>V ! i\<bar>] else []),
                     lc_points_x := lc_points_x d @
                       (if L ! i = target \<and> L ! Suc i \<noteq> target then [T ! i]
                        else if L ! i \<noteq> target \<and> L ! Suc i = target then [T ! Suc i] else []),
                     lc_points_y := lc_points_y d @
                       (if L ! i = target \<and> L ! Suc i \<noteq> target then [H ! i]
                        else if L ! i \<noteq> target \<and> L ! Suc i = target then [H ! Suc i] else []) \<rparr>)"
  using assms by (simp add: segment_step_def np_at_def bind_def)

lemma segment_loop_in_range:
  assumes "\<forall>i \<in> set is. Suc i < length L"
      and "length T = length L" "length H = length L" "length V = length L"
  shows "segment_loop (Arr L) (Arr T) (Arr H) (Arr V) target is d =
           Inr (d \<lparr> lines := lines d @
                       [((T ! i, H ! i), (T ! Suc i, H ! Suc i)).
                          i \<leftarrow> is, L ! i = target \<and> L ! Suc i = target],
                     speeds := speeds d @
                       [\<bar>V ! i\<bar>. i \<leftarrow> is, L ! i = target \<and> L ! Suc i = target],
                     lc_points_x := lc_points_x d @
                       concat (map (\<lambda>i. if L ! i = target \<and> L ! Suc i \<noteq> target then [T ! i]
                                        else if L ! i \<noteq> target \<and> L ! Suc i = target then [T ! Suc i]
                                        else []) is),
                     lc_points_y := lc_points_y d @
                       concat (map (\<lambda>i. if L ! i = target \<and> L ! Suc i \<noteq> target then [H ! i]
                                        else if L ! i \<noteq> target \<and> L ! Suc i = target then [H ! Suc i]
                                        else []) is) \<rparr>)"
  using assms(1)
proof (induction "is" arbitrary: d)
  case Nil
  show ?case by simp
next
  case (Cons i rest)
  then have i: "Suc i < length L" and r: "\<forall>j \<in> set rest. Suc j < length L"
    by simp_all
  show ?case
    by (simp add: segment_step_in_range [OF i assms(2,3,4)] Cons.IH [OF r] bind_def)
qed

lemma concat_map_cong:
  "(\<And>i. i \<in> set is \<Longrightarrow> f i = g i) \<Longrightarrow> concat (map f is) = concat (map g is)"
  by (induction "is") auto

text \<open>With all four arrays present, the body for one track is the loop over the
  consecutive pairs of the time and head-position arrays.\<close>

lemma track_segments_loop:
  assumes "frame_index t = Val frames" and "frenet_s t = Val s_coords"
      and "frenet_s_speed t = Val s_speeds" and "lane_id t = Val lane_ids"
      and "length s_coords = length frames"
      and "vehicle_length t \<noteq> PyNone"
  shows "track_segments interval target t d =
           segment_loop (Arr lane_ids)
             (Arr (map (\<lambda>f. of_int (sint f) * interval) frames))
             (Arr (map (\<lambda>s. s + (if length frames > 1 \<and> last s_coords < hd s_coords then - 1 else 1)
                                  * ((case vehicle_length t of Val l \<Rightarrow> l | _ \<Rightarrow> 5) / 2)) s_coords))
             (Arr s_speeds) target [0..<length frames - 1] d"
proof -
  have hl: "s_coords ! (length frames - 1) = last s_coords \<and> s_coords ! 0 = hd s_coords"
    if "1 < length frames"
  proof -
    from that have "s_coords \<noteq> []"
      using assms(5) by auto
    then show ?thesis
      using assms(5) by (simp add: last_conv_nth hd_conv_nth)
  qed
  show ?thesis
    using assms(1-6) hl
    by (cases "vehicle_length t")
       (simp_all add: track_segments_def np_array_def np_len_def np_at_def np_map_def bind_def)
qed

text \<open>
  Claim C8. For a track whose four sample arrays are present with one entry per
  frame, and a target lane, the segment builder succeeds and appends, walking the
  consecutive pairs \<open>(i, i + 1)\<close> in order: a line from
  \<open>(time i, head_position i)\<close> to \<open>(time (i + 1), head_position (i + 1))\<close> with speed
  \<open>\<bar>frenet_s_speed[i]\<bar>\<close> exactly for the pairs with both lanes equal to the target; the
  point at \<open>i\<close> for a pair with only the first lane equal to it (cut-out); the point
  at \<open>i + 1\<close> for a pair with only the second (cut-in); nothing for the other pairs.
  Here \<open>time i\<close> is the frame, as a number, times the frame interval and \<open>head_position i\<close> is the
  position shifted by half the vehicle length in the direction of travel.
\<close>

theorem track_segments_pairs:
  assumes "frame_index t = Val frames" and "frenet_s t = Val s_coords"
      and "frenet_s_speed t = Val s_speeds" and "lane_id t = Val lane_ids"
      and "length s_coords = length frames" and "length s_speeds = length frames"
      and "length lane_ids = length frames"
      and "vehicle_length t \<noteq> PyNone"
  shows "let n = length frames;
             len = (case vehicle_length t of Val l \<Rightarrow> l | _ \<Rightarrow> 5);
             direction_sign = (if n > 1 \<and> last s_coords < hd s_coords then - 1 else 1);
             time = (\<lambda>i. of_int (sint (frames ! i)) * interval);
             head_position = (\<lambda>i. s_coords ! i + direction_sign * (len / 2));
             inside = (\<lambda>i. lane_ids ! i = target);
             pairs = [0..<n - 1]
         in track_segments interval target t d =
              Inr (d \<lparr> lines := lines d @
                          [((time i, head_position i), (time (i + 1), head_position (i + 1))).
                             i \<leftarrow> pairs, inside i \<and> inside (i + 1)],
                        speeds := speeds d @
                          [\<bar>s_speeds ! i\<bar>. i \<leftarrow> pairs, inside i \<and> inside (i + 1)],
                        lc_points_x := lc_points_x d @
                          concat (map (\<lambda>i. if inside i \<and> \<not> inside (i + 1) then [time i]
                                           else if \<not> inside i \<and> inside (i + 1) then [time (i + 1)]
                                           else []) pairs),
                        lc_points_y := lc_points_y d @
                          concat (map (\<lambda>i. if inside i \<and> \<not> inside (i + 1) then [head_position i]
                                           else if \<not> inside i \<and> inside (i + 1)
                                                then [head_position (i + 1)]
                                           else []) pairs) \<rparr>)"
proof -
  define n where "n = length frames"
  define len where "len = (case vehicle_length t of Val l \<Rightarrow> l | _ \<Rightarrow> 5)"
  define sign :: real where "sign = (if n > 1 \<and> last s_coords < hd s_coords then - 1 else 1)"
  define T where "T = map (\<lambda>f. of_int (sint f) * interval) frames"
  define H where "H = map (\<lambda>s. s + sign * (len / 2)) s_coords"
  define time where "time = (\<lambda>i. of_int (sint (frames ! i)) * interval)"
  define head_position where "head_position = (\<lambda>i. s_coords ! i + sign * (len / 2))"
  have r: "\<forall>i \<in> set [0..<n - 1]. Suc i < length lane_ids"
    using assms(7) by (auto simp: n_def)
  have lt: "length T = length lane_ids" and lh: "length H = length lane_ids"
    and lv: "length s_speeds = length lane_ids"
    using assms(5,6,7) by (simp_all add: T_def H_def)
  have ts: "track_segments interval target t d =
              segment_loop (Arr lane_ids) (Arr T) (Arr H) (Arr s_speeds) target [0..<n - 1] d"
    unfolding T_def H_def sign_def len_def n_def
    by (rule track_segments_loop [OF assms(1-5,8)])
  have nth: "T ! i = time i \<and> T ! Suc i = time (i + 1)
             \<and> H ! i = head_position i \<and> H ! Suc i = head_position (i + 1)"
    if "i \<in> set [0..<n - 1]" for i
    using that assms(5) by (auto simp: T_def H_def time_def head_position_def n_def)
  have a: "[((T ! i, H ! i), (T ! Suc i, H ! Suc i)).
              i \<leftarrow> [0..<n - 1], lane_ids ! i = target \<and> lane_ids ! Suc i = target] =
           [((time i, head_position i), (time (i + 1), head_position (i + 1))).
              i \<leftarrow> [0..<n - 1], lane_ids ! i = target \<and> lane_ids ! (i + 1) = target]"
    by (rule concat_map_cong) (simp add: nth)
  have b: "[\<bar>s_speeds ! i\<bar>. i \<leftarrow> [0..<n - 1], lane_ids ! i = target \<and> lane_ids ! Suc i = target] =
           [\<bar>s_speeds ! i\<bar>. i \<leftarrow> [0..<n - 1], lane_ids ! i = target \<and> lane_ids ! (i + 1) = target]"
    by simp
  have c: "concat (map (\<lambda>i. if lane_ids ! i = target \<and> lane_ids ! Suc i \<noteq> target then [T ! i]
                            else if lane_ids ! i \<noteq> target \<and> lane_ids ! Suc i = target then [T ! Suc i]
                            else []) [0..<n - 1]) =
           concat (map (\<lambda>i. if lane_ids ! i = target \<and> \<not> lane_ids ! (i + 1) = target then [time i]
                            else if \<not> lane_ids ! i = target \<and> lane_ids ! (i + 1) = target
                                 then [time (i + 1)]
                            else []) [0..<n - 1])"
    by (rule concat_map_cong) (simp add: nth)
  have e: "concat (map (\<lambda>i. if lane_ids ! i = target \<and> lane_ids ! Suc i \<noteq> target then [H ! i]
                            else if lane_ids ! i \<noteq> target \<and> lane_ids ! Suc i = target then [H ! Suc i]
                            else []) [0..<n - 1]) =
           concat (map (\<lambda>i. if lane_ids ! i = target \<and> \<not> lane_ids ! (i + 1) = target
                                 then [head_position i]
                            else if \<not> lane_ids ! i = target \<and> lane_ids ! (i + 1) = target
                                 then [head_position (i + 1)]
                            else []) [0..<n - 1])"
    by (rule concat_map_cong) (simp add: nth)
  show ?thesis
    unfolding Let_def ts segment_loop_in_range [OF r lt lh lv] a b c e
    unfolding n_def len_def sign_def time_def head_position_def n_def
    by (rule refl)
qed

text \<open>
  The example of the specification: lanes 1, 1, 2, 2, 1 and target lane 1 give one
  segment (pair 0, 1), one cut-out point (index 1) and one cut-in point (index 4).
\<close>

theorem track_segments_pairs_witness:
  "length [0, 10, 20, 30, 40 :: real] = length [0, 1, 2, 3, 4 :: int64]
   \<and> length [- 10, 10, 10, 10, 10 :: real] = length [0, 1, 2, 3, 4 :: int64]
   \<and> length [1, 1, 2, 2, 1 :: int] = length [0, 1, 2, 3, 4 :: int64]
   \<and> track_segments (1 / 10) 1
         \<lparr> lane_sequence = Absent, frame_index = Val [0, 1, 2, 3, 4],
           lane_id = Val [1, 1, 2, 2, 1], frenet_s = Val [0, 10, 20, 30, 40],
           frenet_s_speed = Val [- 10, 10, 10, 10, 10], vehicle_length = Absent \<rparr>
         empty_diagram
       = Inr \<lparr> lines = [((0, 5 / 2), (1 / 10, 25 / 2))], speeds = [10],
               lc_points_x = [1 / 10, 4 / 10], lc_points_y = [25 / 2, 85 / 2] \<rparr>"
proof -
  let ?t = "\<lparr> lane_sequence = Absent, frame_index = Val [0, 1, 2, 3, 4],
              lane_id = Val [1, 1, 2, 2, 1], frenet_s = Val [0, 10, 20, 30, 40],
              frenet_s_speed = Val [- 10, 10, 10, 10, 10], vehicle_length = Absent \<rparr>"
  have u: "[0..<length [0, 1, 2, 3, 4 :: int64] - 1] = [0, 1, 2, 3]"
    by (simp add: upt_rec)
  from track_segments_pairs [of ?t "[0, 1, 2, 3, 4]" "[0, 10, 20, 30, 40]" "[- 10, 10, 10, 10, 10]"
         "[1, 1, 2, 2, 1]" "1 / 10" 1 empty_diagram]
  show ?thesis
    unfolding Let_def u
    by (simp add: empty_diagram_def)
qed

section \<open>Reading a table\<close>

subsection \<open>Track reconstruction\<close>

lemma find_snoc:
  "find P (xs @ [x]) = (case find P xs of None \<Rightarrow> (if P x then Some x else None) | Some y \<Rightarrow> Some y)"
  by (induction xs) auto

lemma reconstruct_from:
  assumes "\<forall>r \<in> set rows. \<forall>v. r ''vehicle_id'' = Some v \<longrightarrow> hashable v"
  shows "\<exists>m. reconstruct rows tracks = Inr m
           \<and> (\<forall>vid. m vid =
                 (case find (\<lambda>r. r ''vehicle_id'' = Some vid) (rev rows) of
                    None \<Rightarrow> tracks vid
                  | Some r \<Rightarrow> Some (r(''vehicle_id'' := None))))"
  using assms
proof (induction rows arbitrary: tracks)
  case Nil
  show ?case by simp
next
  case (Cons r rows)
  then have h: "\<forall>r \<in> set rows. \<forall>v. r ''vehicle_id'' = Some v \<longrightarrow> hashable v"
    by simp
  show ?case
  proof (cases "r ''vehicle_id''")
    case None
    from Cons.IH [OF h, of tracks] obtain m where
      m: "reconstruct rows tracks = Inr m"
         "\<forall>vid. m vid = (case find (\<lambda>r. r ''vehicle_id'' = Some vid) (rev rows) of
                           None \<Rightarrow> tracks vid | Some r \<Rightarrow> Some (r(''vehicle_id'' := None)))"
      by blast
    show ?thesis
      using None m by (auto simp: find_snoc split: option.splits)
  next
    case (Some v)
    then have hv: "hashable v"
      using Cons.prems by simp
    from Cons.IH [OF h, of "tracks(v \<mapsto> r(''vehicle_id'' := None))"] obtain m where
      m: "reconstruct rows (tracks(v \<mapsto> r(''vehicle_id'' := None))) = Inr m"
         "\<forall>vid. m vid = (case find (\<lambda>r. r ''vehicle_id'' = Some vid) (rev rows) of
                           None \<Rightarrow> (tracks(v \<mapsto> r(''vehicle_id'' := None))) vid
                         | Some r \<Rightarrow> Some (r(''vehicle_id'' := None)))"
      by blast
    show ?thesis
      using Some hv m by (auto simp: find_snoc split: option.splits)
  qed
qed

text \<open>
  Claim C6, as amended. For every sequence of row records whose identifiers are
  hashable, reconstruction succeeds. A row without the column \<^verbatim>\<open>vehicle_id\<close> is
  skipped without an error. An identifier is in the result exactly when some row
  carries it, and it is mapped to the last such row with the identifier column
  removed and every other column unchanged.
\<close>

theorem reconstruct_last_row_wins:
  assumes "list_all (\<lambda>r. case r ''vehicle_id'' of None \<Rightarrow> True | Some v \<Rightarrow> hashable v) rows"
  shows "\<exists>m. reconstruct rows Map.empty = Inr m
           \<and> (\<forall>vid. m vid =
                 (case find (\<lambda>r. r ''vehicle_id'' = Some vid) (rev rows) of
                    None \<Rightarrow> None
                  | Some r \<Rightarrow> Some (r(''vehicle_id'' := None))))"
proof -
  have "\<forall>r \<in> set rows. \<forall>v. r ''vehicle_id'' = Some v \<longrightarrow> hashable v"
    using assms by (auto simp: list_all_iff split: option.splits)
  from reconstruct_from [OF this, of Map.empty] show ?thesis
    by simp
qed

text \<open>Two rows for vehicle 7 around a row without identifier: the last row wins.\<close>

theorem reconstruct_last_row_wins_witness:
  "list_all (\<lambda>r. case r ''vehicle_id'' of None \<Rightarrow> True | Some v \<Rightarrow> hashable v)
     [[''vehicle_id'' \<mapsto> PInt 7, ''lane_id'' \<mapsto> PList [PInt 1]],
      [''lane_id'' \<mapsto> PList [PInt 2]],
      [''vehicle_id'' \<mapsto> PInt 7, ''lane_id'' \<mapsto> PList [PInt 3]]]
   \<and> (\<exists>m f. reconstruct
               [[''vehicle_id'' \<mapsto> PInt 7, ''lane_id'' \<mapsto> PList [PInt 1]],
                [''lane_id'' \<mapsto> PList [PInt 2]],
                [''vehicle_id'' \<mapsto> PInt 7, ''lane_id'' \<mapsto> PList [PInt 3]]] Map.empty = Inr m
            \<and> m (PInt 7) = Some f
            \<and> f ''lane_id'' = Some (PList [PInt 3])
            \<and> f ''vehicle_id'' = None
            \<and> m (PInt 8) = None)"
proof -
  let ?rows = "[[''vehicle_id'' \<mapsto> PInt 7, ''lane_id'' \<mapsto> PList [PInt 1]],
                [''lane_id'' \<mapsto> PList [PInt 2]],
                [''vehicle_id'' \<mapsto> PInt 7, ''lane_id'' \<mapsto> PList [PInt 3]]]"
  have h: "list_all (\<lambda>r. case r ''vehicle_id'' of None \<Rightarrow> True | Some v \<Rightarrow> hashable v) ?rows"
    by (simp add: hashable_def)
  from reconstruct_last_row_wins [OF h] obtain m where
    m: "reconstruct ?rows Map.empty = Inr m"
       "\<forall>vid. m vid = (case find (\<lambda>r. r ''vehicle_id'' = Some vid) (rev ?rows) of
                         None \<Rightarrow> None | Some r \<Rightarrow> Some (r(''vehicle_id'' := None)))"
    by blast
  have "m (PInt 7) = Some ([''vehicle_id'' \<mapsto> PInt 7, ''lane_id'' \<mapsto> PList [PInt 3]](''vehicle_id'' := None))"
    and "m (PInt 8) = None"
    using m(2) by simp_all
  then show ?thesis
    using h m(1) by simp
qed

text \<open>
  Claim C6 as stated fails in its first part: for a row without \<^verbatim>\<open>vehicle_id\<close> the
  guard \<^verbatim>\<open>if 'vehicle_id' in record\<close> skips the row, and both the loop and the whole
  read return normally with a mapping that omits it.
\<close>

theorem reconstruct_missing_identifier_counterexample:
  "reconstruct [[''pixel_corners'' \<mapsto> PList []]] Map.empty = Inr Map.empty
   \<and> read_parquet plain_reader
        \<lparr> schema_metadata = Some [''dataset_meta'' \<mapsto> ''{}''],
          records = [[''pixel_corners'' \<mapsto> PList []]] \<rparr>
       = Inr (Map.empty, ''{}'')"
  by (simp add: read_parquet_def extract_meta_def decode_dataset_meta_def to_pandas_def
        check_sample_corners_def py_len_def bind_def plain_reader_def)

subsection \<open>The inspection of \<^verbatim>\<open>pixel_corners\<close>\<close>

lemma read_parquet_Inl:
  assumes "check_sample_corners (records tbl) = Inl e"
  shows "read_parquet lib tbl =
           Inl (case extract_meta lib (schema_metadata tbl) of
                  Inl e' \<Rightarrow> e'
                | Inr m \<Rightarrow> (case to_pandas_raises lib tbl of Some e' \<Rightarrow> e' | None \<Rightarrow> e))"
proof (cases "extract_meta lib (schema_metadata tbl)")
  case (Inl e')
  then show ?thesis
    by (simp add: read_parquet_def bind_def)
next
  case (Inr m)
  then show ?thesis
    using assms
    by (cases "to_pandas_raises lib tbl") (simp_all add: read_parquet_def to_pandas_def bind_def)
qed

text \<open>
  Claim C9. For a table with no rows, or with no row that has a \<^verbatim>\<open>pixel_corners\<close>
  column, \<^verbatim>\<open>read_parquet\<close> raises: whatever the header and the library are, it does
  not return. The exception is that of the metadata step or of the conversion to a
  frame when one of them raises, and otherwise the \<^verbatim>\<open>IndexError\<close> of \<^verbatim>\<open>iloc[0]\<close> on
  no rows or the \<^verbatim>\<open>KeyError\<close> of the missing column.
\<close>

theorem read_parquet_needs_pixel_corners:
  assumes "records tbl = [] \<or> (\<forall>r \<in> set (records tbl). r ''pixel_corners'' = None)"
  shows "read_parquet lib tbl =
           Inl (case extract_meta lib (schema_metadata tbl) of
                  Inl e \<Rightarrow> e
                | Inr m \<Rightarrow>
                    (case to_pandas_raises lib tbl of
                       Some e \<Rightarrow> e
                     | None \<Rightarrow> if records tbl = [] then IndexError else KeyError))"
proof -
  have "check_sample_corners (records tbl) = Inl (if records tbl = [] then IndexError else KeyError)"
    using assms by (cases "records tbl") (auto simp: check_sample_corners_def)
  then show ?thesis
    by (rule read_parquet_Inl)
qed

text \<open>A table without rows, and one whose only row has no \<^verbatim>\<open>pixel_corners\<close>.\<close>

theorem read_parquet_needs_pixel_corners_witness:
  "([] = ([] :: row list) \<or> (\<forall>r \<in> set ([] :: row list). r ''pixel_corners'' = None))
   \<and> read_parquet plain_reader
         \<lparr> schema_metadata = Some [''dataset_meta'' \<mapsto> ''{}''], records = [] \<rparr>
       = Inl IndexError
   \<and> ([[''vehicle_id'' \<mapsto> PInt 7]] = [] \<or>
        (\<forall>r \<in> set [[''vehicle_id'' \<mapsto> PInt 7]]. r ''pixel_corners'' = None))
   \<and> read_parquet plain_reader
         \<lparr> schema_metadata = Some [''dataset_meta'' \<mapsto> ''{}''],
           records = [[''vehicle_id'' \<mapsto> PInt 7]] \<rparr>
       = Inl KeyError"
proof -
  let ?t1 = "\<lparr> schema_metadata = Some [''dataset_meta'' \<mapsto> ''{}''], records = [] \<rparr>"
  let ?t2 = "\<lparr> schema_metadata = Some [''dataset_meta'' \<mapsto> ''{}''],
               records = [[''vehicle_id'' \<mapsto> PInt 7]] \<rparr>"
  have m: "extract_meta plain_reader (Some [''dataset_meta'' \<mapsto> ''{}'']) = Inr (Some ''{}'')"
    by (simp add: extract_meta_def decode_dataset_meta_def bind_def plain_reader_def)
  have p: "to_pandas_raises plain_reader tbl = None" for tbl
    by (simp add: plain_reader_def)
  have h1: "records ?t1 = [] \<or> (\<forall>r \<in> set (records ?t1). r ''pixel_corners'' = None)"
    by simp
  have h2: "records ?t2 = [] \<or> (\<forall>r \<in> set (records ?t2). r ''pixel_corners'' = None)"
    by simp
  from read_parquet_needs_pixel_corners [OF h1, of plain_reader]
       read_parquet_needs_pixel_corners [OF h2, of plain_reader] m p
  show ?thesis
    by simp
qed

subsection \<open>A header without \<^verbatim>\<open>dataset_meta\<close>\<close>

text \<open>Without the key the read never returns: at best every other step succeeds and
  the \<^verbatim>\<open>return\<close> statement reads the unassigned \<^verbatim>\<open>restored_meta\<close>.\<close>

lemma read_parquet_without_key:
  assumes "schema_metadata tbl = Some file_meta" "file_meta ''dataset_meta'' = None"
  shows "\<exists>e. read_parquet lib tbl = Inl e"
  using assms
  by (auto simp: read_parquet_def extract_meta_def bind_def split: sum.splits)

text \<open>
  Claim C5 says that a table whose header lacks \<^verbatim>\<open>dataset_meta\<close> is still read, with
  a warning. The code prints the warning and goes on, but for a well-formed table
  (one vehicle with its five corners, a header with the one entry \<^verbatim>\<open>created_by\<close>)
  the read raises for every library: the exception of the conversion to a frame if
  that raises, and otherwise, with the tracks reconstructed, \<^verbatim>\<open>UnboundLocalError\<close>
  at the \<^verbatim>\<open>return\<close> statement.
\<close>

theorem read_parquet_without_meta_raises:
  "let tbl = \<lparr> schema_metadata = Some [''created_by'' \<mapsto> ''me''],
               records = [[''vehicle_id'' \<mapsto> PInt 7,
                           ''pixel_corners'' \<mapsto>
                             PList [PList [PInt 0, PInt 0], PList [PInt 4, PInt 0],
                                    PList [PInt 4, PInt 2], PList [PInt 0, PInt 2],
                                    PList [PInt 0, PInt 0]]]] \<rparr>
   in read_parquet lib tbl =
        (case to_pandas_raises lib tbl of Some e \<Rightarrow> Inl e | None \<Rightarrow> Inl UnboundLocalError)
      \<and> read_parquet plain_reader tbl = Inl UnboundLocalError"
  by (simp add: read_parquet_def extract_meta_def to_pandas_def check_sample_corners_def py_len_def
        hashable_def bind_def plain_reader_def Let_def split: option.splits)

section \<open>The metadata merge\<close>

text \<open>
  The store after the merge extends the store before it, and the merged header is
  its last object: the entries of the existing header with the fixed key set.
\<close>

lemma merge_header_result:
  assumes "case metadata of None \<Rightarrow> True | Some a \<Rightarrow> a < length heap"
  shows "\<exists>heap'. length heap < length heap'
           \<and> (\<forall>a < length heap. heap' ! a = heap ! a)
           \<and> merge_header lib heap metadata s =
               (case encode_utf8 lib s of
                  Inl e \<Rightarrow> (Inl e, heap')
                | Inr b \<Rightarrow>
                    (Inr (length heap' - 1),
                     heap'[length heap' - 1 :=
                       (case metadata of None \<Rightarrow> Map.empty | Some a \<Rightarrow> heap ! a)
                         (''dataset_meta'' \<mapsto> b)]))"
proof (cases "metadata = None \<or> heap ! the metadata = Map.empty")
  case True
  let ?h = "heap @ [Map.empty, Map.empty]"
  have m: "merge_header lib heap metadata s =
          (case encode_utf8 lib s of
             Inl e \<Rightarrow> (Inl e, ?h)
           | Inr b \<Rightarrow> (Inr (length ?h - 1), ?h[length ?h - 1 := [''dataset_meta'' \<mapsto> b]]))"
    using True
    by (auto simp: merge_header_def alloc_def Let_def nth_append list_update_append
             split: option.splits sum.splits)
  have e: "(case metadata of None \<Rightarrow> Map.empty | Some a \<Rightarrow> heap ! a) = Map.empty"
    using True by (auto split: option.splits)
  have "\<forall>a < length heap. ?h ! a = heap ! a"
    by (simp add: nth_append)
  then show ?thesis
    unfolding m e by (intro exI [of _ ?h]) simp
next
  case False
  then obtain a where a: "metadata = Some a" "heap ! a \<noteq> Map.empty"
    by auto
  then have l: "a < length heap"
    using assms by simp
  let ?h = "heap @ [heap ! a]"
  have m: "merge_header lib heap (Some a) s =
          (case encode_utf8 lib s of
             Inl e \<Rightarrow> (Inl e, ?h)
           | Inr b \<Rightarrow> (Inr (length ?h - 1), ?h[length ?h - 1 := (heap ! a)(''dataset_meta'' \<mapsto> b)]))"
    using a l
    by (auto simp: merge_header_def alloc_def Let_def nth_append list_update_append
             split: option.splits sum.splits)
  have "\<forall>a < length heap. ?h ! a = heap ! a"
    by (simp add: nth_append)
  then show ?thesis
    unfolding m a(1) option.case by (intro exI [of _ ?h]) simp
qed

text \<open>
  Claim C3. Let \<open>H\<close> be the existing header (empty when the table has none). The
  merge leaves every object of the store as it was, \<open>H\<close> included. When the encoding
  of the new text succeeds, the merged header is a new object in which every key
  other than \<^verbatim>\<open>dataset_meta\<close> has exactly the value it has in \<open>H\<close> (and is absent when
  absent in \<open>H\<close>), and \<^verbatim>\<open>dataset_meta\<close> has the encoded bytes; when the encoding
  raises, so does the merge.
\<close>

theorem merge_header_preserves_other_keys:
  assumes "case metadata of None \<Rightarrow> True | Some a \<Rightarrow> a < length heap"
  shows "let H = (case metadata of None \<Rightarrow> Map.empty | Some a \<Rightarrow> heap ! a);
             (result, heap') = merge_header lib heap metadata s
         in (\<forall>a < length heap. heap' ! a = heap ! a)
            \<and> (case encode_utf8 lib s of
                 Inl e \<Rightarrow> result = Inl e
               | Inr b \<Rightarrow>
                   (\<exists>updated_meta. result = Inr updated_meta
                      \<and> length heap \<le> updated_meta \<and> updated_meta < length heap'
                      \<and> (\<forall>k. k \<noteq> ''dataset_meta'' \<longrightarrow> (heap' ! updated_meta) k = H k)
                      \<and> (heap' ! updated_meta) ''dataset_meta'' = Some b))"
proof -
  from merge_header_result [OF assms, of lib s] obtain h where
    h: "length heap < length h" "\<forall>a < length heap. h ! a = heap ! a"
       "merge_header lib heap metadata s =
          (case encode_utf8 lib s of
             Inl e \<Rightarrow> (Inl e, h)
           | Inr b \<Rightarrow>
               (Inr (length h - 1),
                h[length h - 1 := (case metadata of None \<Rightarrow> Map.empty | Some a \<Rightarrow> heap ! a)
                                    (''dataset_meta'' \<mapsto> b)]))"
    by blast
  show ?thesis
  proof (cases "encode_utf8 lib s")
    case (Inl e)
    then show ?thesis
      using h by simp
  next
    case (Inr b)
    then show ?thesis
      using h by (auto simp: Let_def)
  qed
qed

text \<open>
  A header with an older \<^verbatim>\<open>dataset_meta\<close> and a foreign key \<^verbatim>\<open>created_by\<close>, merged
  with the text \<^verbatim>\<open>new\<close> by the Python encoder.
\<close>

lemma utf8_encode_ascii:
  "list_all (\<lambda>c. of_char c < (0x80 :: nat)) s \<Longrightarrow> utf8_encode (ascii s) = Inr s"
  by (induction s) (simp_all add: ascii_def utf8_char_def bind_def)


lemma utf8_encode_new: "utf8_encode (ascii ''new'') = Inr ''new''"
  by (rule utf8_encode_ascii) simp

theorem merge_header_preserves_other_keys_witness:
  "(case Some (0 :: nat) of None \<Rightarrow> True
    | Some a \<Rightarrow> a < length [[''dataset_meta'' \<mapsto> ''old'', ''created_by'' \<mapsto> ''me'']])
   \<and> (\<exists>heap'. merge_header python_writer
                  [[''dataset_meta'' \<mapsto> ''old'', ''created_by'' \<mapsto> ''me'']] (Some 0) (ascii ''new'')
                = (Inr 1, heap')
          \<and> heap' ! 0 = [''dataset_meta'' \<mapsto> ''old'', ''created_by'' \<mapsto> ''me'']
          \<and> (heap' ! 1) ''created_by'' = Some ''me''
          \<and> (heap' ! 1) ''dataset_meta'' = Some ''new'')"
proof -
  let ?heap = "[[''dataset_meta'' \<mapsto> ''old'', ''created_by'' \<mapsto> ''me'']]"
  have v: "case Some (0 :: nat) of None \<Rightarrow> True | Some a \<Rightarrow> a < length ?heap"
    by simp
  have n: "?heap ! 0 \<noteq> Map.empty"
    by simp
  have e: "encode_utf8 python_writer (ascii ''new'') = Inr ''new''"
    by (simp add: python_writer_def utf8_encode_new)
  obtain r h where m: "merge_header python_writer ?heap (Some 0) (ascii ''new'') = (r, h)"
    by (cases "merge_header python_writer ?heap (Some 0) (ascii ''new'')")
  have r: "r = Inr 1"
    using m n by (simp add: merge_header_def alloc_def e Let_def)
  from merge_header_preserves_other_keys [OF v, of python_writer "ascii ''new''"]
  show ?thesis
    unfolding Let_def m r e
    by auto
qed





end
